theory Spec2Isabelle
  imports Main "HOL-Library.AList"
begin

section \<open>JavaScript values and the Immutable.js collections\<close>

text \<open>
  The builder of \<^verbatim>\<open>src/BaseBuilder.js\<close> keeps its state in an \<^verbatim>\<open>Immutable.Map\<close>; the
  \<^verbatim>\<open>options\<close> entry of that map is itself a nested \<^verbatim>\<open>Immutable.Map\<close> that \<^verbatim>\<open>getOptions\<close>
  returns as a plain object. A JavaScript value is modelled as a tree. A plain object and an
  \<^verbatim>\<open>Immutable.Map\<close> are both \<open>JObj\<close> (an association list with string keys, in insertion
  order); an array and an \<^verbatim>\<open>Immutable.List\<close> are both \<open>JArr\<close>. So \<^verbatim>\<open>Immutable.fromJS\<close> and
  \<^verbatim>\<open>toJS\<close>, which convert between the two representations, are the identity of the model.
  A function, a class or a class instance is a \<open>JRef\<close>: an opaque reference that the
  conversions leave alone and that is always truthy.
\<close>

datatype jsval =
    JUndefined
  | JNull
  | JBool bool
  | JNum int
  | JStr string
  | JRef nat
  | JObj "(string \<times> jsval) list"
  | JArr "jsval list"

type_synonym jsobj = "(string \<times> jsval) list"

text \<open>JavaScript truthiness, as \<^verbatim>\<open>if (v)\<close>, \<^verbatim>\<open>!v\<close> and \<^verbatim>\<open>a || b\<close> read it.\<close>

fun truthy :: "jsval \<Rightarrow> bool" where
  "truthy JUndefined = False"
| "truthy JNull = False"
| "truthy (JBool b) = b"
| "truthy (JNum n) = (n \<noteq> 0)"
| "truthy (JStr s) = (s \<noteq> [])"
| "truthy (JRef r) = True"
| "truthy (JObj m) = True"
| "truthy (JArr xs) = True"

fun isCollection :: "jsval \<Rightarrow> bool" where
  "isCollection (JObj m) = True"
| "isCollection (JArr xs) = True"
| "isCollection v = False"

text \<open>
  \<^verbatim>\<open>Map.mergeDeep\<close>: every entry of the merged object is written into the map; where the
  key exists already, \<^verbatim>\<open>deepMerger(existing, value)\<close> decides: two maps are merged key by
  key, recursively; a value that is not a collection, or that meets one that is not,
  replaces the existing one. What Immutable.js does when a list is involved on either
  side depends on its release (lists are merged index by index in 3.x and concatenated in
  4.x), so that case is the parameter \<open>lm\<close>. The parameter is total: it stands for the
  merges that return. Where the library throws instead (as 3.8 can when a map meets a
  list), the setter throws with it and returns no builder; such a call is outside what
  the setters below describe.
\<close>

fun deepMerger :: "(jsval \<Rightarrow> jsval \<Rightarrow> jsval) \<Rightarrow> jsval \<Rightarrow> jsval \<Rightarrow> jsval"
  and mergeDeep :: "(jsval \<Rightarrow> jsval \<Rightarrow> jsval) \<Rightarrow> jsobj \<Rightarrow> jsobj \<Rightarrow> jsobj" where
  "deepMerger lm (JObj m) (JObj n) = JObj (mergeDeep lm m n)"
| "deepMerger lm existing v =
     (if isCollection existing \<and> isCollection v then lm existing v else v)"
| "mergeDeep lm m [] = m"
| "mergeDeep lm m ((k, v) # n) =
     mergeDeep lm
       (AList.update k (case map_of m k of None \<Rightarrow> v | Some existing \<Rightarrow> deepMerger lm existing v) m)
       n"

section \<open>The builder\<close>

text \<open>
  What a call can throw: \<open>Error msg\<close> is \<^verbatim>\<open>throw new Error(msg)\<close> of the builder itself;
  \<open>TypeError\<close> is the error of the JavaScript runtime when \<^verbatim>\<open>null\<close> is called or a value has
  no method \<^verbatim>\<open>push\<close>; \<open>External msg\<close> is whatever a collaborator threw (a type combinator,
  a template callback, \<^verbatim>\<open>validators.combine\<close>), which the builder does not catch.
\<close>

datatype error =
    Error string
  | TypeError
  | External string

text \<open>
  A builder is its \<^verbatim>\<open>_state\<close>, with one field per key of \<^verbatim>\<open>initialState\<close> (the underscore of the
  key is the prefix \<open>st\<close>) and one for \<^verbatim>\<open>_disableTemplates\<close>, which is \<^verbatim>\<open>true\<close> or not set.
  \<^verbatim>\<open>_fieldBuilders\<close> is a map from keys to builders; it is an association list in the order
  in which the keys were first set, which is the order in which \<^verbatim>\<open>entrySeq()\<close> is taken to
  visit them. (Immutable.js visits a map of more than eight keys in the order of their
  hashes. The order decides only which field's error is thrown when more than one field
  fails, and the order of the keys in the objects returned; the general theorems below
  depend on neither, and the examples have few keys.) The slots \<^verbatim>\<open>_templateProviderCallback\<close> and \<^verbatim>\<open>_type\<close> hold \<^verbatim>\<open>null\<close> or a function, and
  a function is a function of HOL that returns \<open>Inl\<close> of a message when it throws. The
  type parameter \<open>'t\<close> is the type of the types of the type system.
\<close>

datatype 't builder = BaseBuilder
  (st_fieldBuilders: "(string \<times> 't builder) list")
  (st_isOptional: bool)
  (st_templateProviderCallback: "(jsval \<Rightarrow> string + jsval) option")
  (st_lazyTemplateProvider: jsval)
  (st_type: "(jsval \<Rightarrow> (string \<times> 't) list option \<Rightarrow> string + 't) option")
  (st_disableTemplates: bool)
  (st_options: jsobj)

definition initialState :: "'t builder" where
  "initialState = BaseBuilder [] False None JNull None False []"

text \<open>
  The collaborators the builder calls but does not define: \<^verbatim>\<open>tcomb.maybe\<close> of the type
  system, \<^verbatim>\<open>validators.combine\<close> and \<^verbatim>\<open>validation\<close> of the sibling modules, and the list
  case of \<^verbatim>\<open>mergeDeep\<close>. A collaborator that throws returns \<open>Inl\<close> of its message.
\<close>

record 't ext =
  tcomb_maybe :: "'t \<Rightarrow> 't"
  validators_combine :: "jsval list \<Rightarrow> string + jsval"
  validation :: "'t \<Rightarrow> jsval \<Rightarrow> jsval \<Rightarrow> string + 't"
  list_merge :: "jsval \<Rightarrow> jsval \<Rightarrow> jsval"

subsection \<open>Reading and writing the state\<close>

text \<open>\<^verbatim>\<open>this._state.getIn(['options', key], notSet)\<close>\<close>

definition getIn_options :: "'t builder \<Rightarrow> string \<Rightarrow> jsval \<Rightarrow> jsval" where
  "getIn_options b key notSet = (case map_of (st_options b) key of None \<Rightarrow> notSet | Some v \<Rightarrow> v)"

definition set_options :: "jsobj \<Rightarrow> 't builder \<Rightarrow> 't builder" where
  "set_options opts b =
     BaseBuilder (st_fieldBuilders b) (st_isOptional b) (st_templateProviderCallback b)
       (st_lazyTemplateProvider b) (st_type b) (st_disableTemplates b) opts"

text \<open>\<^verbatim>\<open>this._state.mergeDeep({ options: obj })\<close>\<close>

definition state_mergeDeep :: "'t ext \<Rightarrow> 't builder \<Rightarrow> jsobj \<Rightarrow> 't builder" where
  "state_mergeDeep E b obj = set_options (mergeDeep (list_merge E) (st_options b) obj) b"

text \<open>
  \<^verbatim>\<open>updateIn(['options', key], Immutable.List(), arr => arr.push(x))\<close>: the list under
  \<open>key\<close>, or the empty list when the key is not set, with \<open>x\<close> appended. A value under
  \<open>key\<close> that is not a list has no \<^verbatim>\<open>push\<close>: the call is a \<^verbatim>\<open>TypeError\<close>.
\<close>

definition updateIn_push :: "jsobj \<Rightarrow> string \<Rightarrow> jsval \<Rightarrow> error + jsobj" where
  "updateIn_push opts key x =
     (case map_of opts key of
        None \<Rightarrow> Inr (AList.update key (JArr [x]) opts)
      | Some (JArr arr) \<Rightarrow> Inr (AList.update key (JArr (arr @ [x])) opts)
      | Some _ \<Rightarrow> Inl TypeError)"

subsection \<open>Realization: getType and getOptions\<close>

text \<open>
  Calling the \<^verbatim>\<open>_type\<close> slot. The slot is \<^verbatim>\<open>null\<close> until \<^verbatim>\<open>setType\<close> is called, and calling
  \<^verbatim>\<open>null\<close> is a \<^verbatim>\<open>TypeError\<close>.
\<close>

fun call_type ::
  "(jsval \<Rightarrow> (string \<times> 't) list option \<Rightarrow> string + 't) option \<Rightarrow> jsval \<Rightarrow>
     (string \<times> 't) list option \<Rightarrow> error + 't" where
  "call_type None err subTypes = Inl TypeError"
| "call_type (Some f) err subTypes =
     (case f err subTypes of Inl msg \<Rightarrow> Inl (External msg) | Inr t \<Rightarrow> Inr t)"

text \<open>
  \<^verbatim>\<open>getType()\<close>. \<open>getSubTypes\<close> is the \<^verbatim>\<open>reduce\<close> over the field builders; the first field
  whose \<^verbatim>\<open>getType()\<close> throws ends it. A type combinator called with one argument gets
  \<open>None\<close> for its sub-types.
\<close>

fun getType :: "'t ext \<Rightarrow> 't builder \<Rightarrow> error + 't"
  and getSubTypes ::
    "'t ext \<Rightarrow> (string \<times> 't builder) list \<Rightarrow> (string \<times> 't) list \<Rightarrow> error + (string \<times> 't) list" where
  "getType E (BaseBuilder fbs isOpt cb own ty dis opts) =
     (let err = (case map_of opts ''error'' of None \<Rightarrow> JUndefined | Some v \<Rightarrow> v);
          type =
            (if fbs = [] then call_type ty err None
             else (case getSubTypes E fbs [] of
                     Inl e \<Rightarrow> Inl e
                   | Inr subTypes \<Rightarrow> call_type ty err (Some subTypes)))
      in if isOpt then (case type of Inl e \<Rightarrow> Inl e | Inr t \<Rightarrow> Inr (tcomb_maybe E t)) else type)"
| "getSubTypes E [] acc = Inr acc"
| "getSubTypes E ((key, field) # rest) acc =
     (case getType E field of
        Inl e \<Rightarrow> Inl e
      | Inr t \<Rightarrow> getSubTypes E rest (AList.update key t acc))"

text \<open>The inner closure \<^verbatim>\<open>type\<close> of \<^verbatim>\<open>getType\<close>: the type before the optional wrapper.\<close>

definition realizeType :: "'t ext \<Rightarrow> 't builder \<Rightarrow> error + 't" where
  "realizeType E b =
     (if st_fieldBuilders b = [] then call_type (st_type b) (getIn_options b ''error'' JUndefined) None
      else (case getSubTypes E (st_fieldBuilders b) [] of
              Inl e \<Rightarrow> Inl e
            | Inr subTypes \<Rightarrow>
                call_type (st_type b) (getIn_options b ''error'' JUndefined) (Some subTypes)))"

definition no_provider_message :: string where
  "no_provider_message = ''A template callback function was specified, but no provider was set''"

text \<open>
  \<^verbatim>\<open>getOptions(lazyTemplateProvider, config = {})\<close>. The argument \<open>config\<close> is the property
  \<^verbatim>\<open>config.disableTemplates\<close>, \<open>None\<close> when it is not there; a provider that is not given is
  \<open>JUndefined\<close>. \<open>getFieldOptions\<close> is the \<^verbatim>\<open>reduce\<close> over the field builders, and its
  accumulator is \<^verbatim>\<open>options.fields\<close> of the map that the \<^verbatim>\<open>reduce\<close> builds. Without field
  builders that map is empty, its \<^verbatim>\<open>toJS()\<close> is \<^verbatim>\<open>{}\<close>, and merging \<^verbatim>\<open>{}\<close> changes nothing.
\<close>

fun getOptions :: "'t ext \<Rightarrow> 't builder \<Rightarrow> jsval \<Rightarrow> bool option \<Rightarrow> error + jsobj"
  and getFieldOptions ::
    "'t ext \<Rightarrow> (string \<times> 't builder) list \<Rightarrow> jsval \<Rightarrow> bool \<Rightarrow> jsobj \<Rightarrow> error + jsobj" where
  "getOptions E (BaseBuilder fbs isOpt cb own ty dis opts) lazyTemplateProvider config =
     (let disableTemplates = (case config of None \<Rightarrow> dis | Some d \<Rightarrow> d);
          provider = (if truthy lazyTemplateProvider then lazyTemplateProvider else own);
          hasConcreteTemplateFactory = (map_of opts ''factory'' \<noteq> None)
      in if \<not> hasConcreteTemplateFactory \<and> cb \<noteq> None \<and> \<not> truthy provider \<and> \<not> disableTemplates
         then Inl (Error no_provider_message)
         else (case getFieldOptions E fbs provider disableTemplates [] of
                 Inl e \<Rightarrow> Inl e
               | Inr subFields \<Rightarrow>
                   (case (case cb of
                            None \<Rightarrow> Inr opts
                          | Some templateProviderCallback \<Rightarrow>
                              if \<not> hasConcreteTemplateFactory \<and> \<not> disableTemplates
                              then (case templateProviderCallback provider of
                                      Inl msg \<Rightarrow> Inl (External msg)
                                    | Inr factory \<Rightarrow>
                                        Inr (mergeDeep (list_merge E) opts [(''factory'', factory)]))
                              else Inr opts) of
                      Inl e \<Rightarrow> Inl e
                    | Inr options \<Rightarrow>
                        Inr (if fbs = [] then options
                             else mergeDeep (list_merge E) options [(''fields'', JObj subFields)]))))"
| "getFieldOptions E [] provider disableTemplates acc = Inr acc"
| "getFieldOptions E ((key, field) # rest) provider disableTemplates acc =
     (case getOptions E field provider (Some disableTemplates) of
        Inl e \<Rightarrow> Inl e
      | Inr fieldOptions \<Rightarrow>
          getFieldOptions E rest provider disableTemplates (AList.update key (JObj fieldOptions) acc))"

subsection \<open>The state layer: one function per method\<close>

text \<open>
  Every method builds \<^verbatim>\<open>new BaseBuilder(...)\<close> from a state derived from \<^verbatim>\<open>this._state\<close>. A
  method that can throw returns a sum.
\<close>

definition setDisabled :: "'t ext \<Rightarrow> 't builder \<Rightarrow> jsval \<Rightarrow> 't builder" where
  "setDisabled E b disabled = state_mergeDeep E b [(''disabled'', disabled)]"

definition setLabel :: "'t ext \<Rightarrow> 't builder \<Rightarrow> jsval \<Rightarrow> 't builder" where
  "setLabel E b label = state_mergeDeep E b [(''label'', label)]"

definition setName :: "'t ext \<Rightarrow> 't builder \<Rightarrow> jsval \<Rightarrow> 't builder" where
  "setName E b name = state_mergeDeep E b [(''name'', name)]"

definition setValue :: "'t ext \<Rightarrow> 't builder \<Rightarrow> jsval \<Rightarrow> 't builder" where
  "setValue E b v = state_mergeDeep E b [(''value'', v)]"

definition setText :: "'t ext \<Rightarrow> 't builder \<Rightarrow> jsval \<Rightarrow> 't builder" where
  "setText E b txt = state_mergeDeep E b [(''text'', txt)]"

definition setHelp :: "'t ext \<Rightarrow> 't builder \<Rightarrow> jsval \<Rightarrow> 't builder" where
  "setHelp E b help = state_mergeDeep E b [(''help'', help)]"

definition setTemplateFactory :: "'t ext \<Rightarrow> 't builder \<Rightarrow> jsval \<Rightarrow> 't builder" where
  "setTemplateFactory E b factory = state_mergeDeep E b [(''factory'', factory)]"

definition setLazyTemplateFactory ::
  "'t builder \<Rightarrow> (jsval \<Rightarrow> string + jsval) \<Rightarrow> 't builder" where
  "setLazyTemplateFactory b callback =
     BaseBuilder (st_fieldBuilders b) (st_isOptional b) (Some callback)
       (st_lazyTemplateProvider b) (st_type b) (st_disableTemplates b) (st_options b)"

definition setValidationErrorMessageFn :: "'t ext \<Rightarrow> 't builder \<Rightarrow> jsval \<Rightarrow> 't builder" where
  "setValidationErrorMessageFn E b err = state_mergeDeep E b [(''error'', err)]"

definition setTransformer :: "'t ext \<Rightarrow> 't builder \<Rightarrow> jsval \<Rightarrow> 't builder" where
  "setTransformer E b transformer = state_mergeDeep E b [(''transformer'', transformer)]"

definition addValidationErrorMessageFn :: "'t ext \<Rightarrow> 't builder \<Rightarrow> jsval \<Rightarrow> error + 't builder" where
  "addValidationErrorMessageFn E b err =
     (let existingError = getIn_options b ''error'' JNull
      in if \<not> truthy existingError then Inr (setValidationErrorMessageFn E b err)
         else (case validators_combine E [existingError, err] of
                 Inl msg \<Rightarrow> Inl (External msg)
               | Inr combined \<Rightarrow> Inr (state_mergeDeep E b [(''error'', combined)])))"

definition field_after_option_message :: string where
  "field_after_option_message =
     ''Tried to set a field, but a select option was already added. '' @
     ''Select options and fields are mutually exclusive.''"

definition setField :: "'t builder \<Rightarrow> string \<Rightarrow> 't builder \<Rightarrow> error + 't builder" where
  "setField b key fieldBuilder =
     (if truthy (getIn_options b ''options'' JUndefined) then Inl (Error field_after_option_message)
      else (case updateIn_push (st_options b) ''order'' (JStr key) of
              Inl e \<Rightarrow> Inl e
            | Inr opts \<Rightarrow>
                Inr (BaseBuilder (AList.update key fieldBuilder (st_fieldBuilders b)) (st_isOptional b)
                       (st_templateProviderCallback b) (st_lazyTemplateProvider b) (st_type b)
                       (st_disableTemplates b) opts)))"

definition option_after_field_message :: string where
  "option_after_field_message =
     ''Tried to add a select option, but a field was already set. '' @
     ''Select options and fields are mutually exclusive.''"

definition addSelectOption :: "'t ext \<Rightarrow> 't builder \<Rightarrow> 't builder \<Rightarrow> error + 't builder" where
  "addSelectOption E b selectBuilder =
     (if st_fieldBuilders b \<noteq> [] then Inl (Error option_after_field_message)
      else (case getOptions E selectBuilder JUndefined None of
              Inl e \<Rightarrow> Inl e
            | Inr selectOptions \<Rightarrow>
                (case updateIn_push (st_options b) ''options'' (JObj selectOptions) of
                   Inl e \<Rightarrow> Inl e
                 | Inr opts \<Rightarrow> Inr (set_options opts b))))"

definition setType ::
  "'t builder \<Rightarrow> (jsval \<Rightarrow> (string \<times> 't) list option \<Rightarrow> string + 't) \<Rightarrow> 't builder" where
  "setType b typeCombinator =
     BaseBuilder (st_fieldBuilders b) (st_isOptional b) (st_templateProviderCallback b)
       (st_lazyTemplateProvider b) (Some (\<lambda>err subTypes. typeCombinator err subTypes))
       (st_disableTemplates b) (st_options b)"

definition setTypeAndValidate :: "'t ext \<Rightarrow> 't builder \<Rightarrow> 't \<Rightarrow> jsval \<Rightarrow> 't builder" where
  "setTypeAndValidate E b type name = setType b (\<lambda>errorFn subTypes. validation E type errorFn name)"

definition setLazyTemplateProvider :: "'t builder \<Rightarrow> jsval \<Rightarrow> 't builder" where
  "setLazyTemplateProvider b provider =
     BaseBuilder (st_fieldBuilders b) (st_isOptional b) (st_templateProviderCallback b)
       provider (st_type b) (st_disableTemplates b) (st_options b)"

definition makeOptional :: "'t builder \<Rightarrow> 't builder" where
  "makeOptional b =
     BaseBuilder (st_fieldBuilders b) True (st_templateProviderCallback b)
       (st_lazyTemplateProvider b) (st_type b) (st_disableTemplates b) (st_options b)"

definition setNullOption :: "'t ext \<Rightarrow> 't builder \<Rightarrow> 't builder \<Rightarrow> error + 't builder" where
  "setNullOption E b selectBuilder =
     (case getOptions E selectBuilder JUndefined None of
        Inl e \<Rightarrow> Inl e
      | Inr nullOption \<Rightarrow> Inr (state_mergeDeep E b [(''nullOption'', JObj nullOption)]))"

definition setPlaceholder :: "'t ext \<Rightarrow> 't builder \<Rightarrow> jsval \<Rightarrow> 't builder" where
  "setPlaceholder E b placeholder =
     state_mergeDeep E b [(''attrs'', JObj [(''placeholder'', placeholder)])]"

definition setAutoFocus :: "'t ext \<Rightarrow> 't builder \<Rightarrow> jsval \<Rightarrow> 't builder" where
  "setAutoFocus E b autoFocus =
     state_mergeDeep E b [(''attrs'', JObj [(''autoFocus'', autoFocus)])]"

definition setConfig :: "'t ext \<Rightarrow> 't builder \<Rightarrow> jsval \<Rightarrow> 't builder" where
  "setConfig E b config = state_mergeDeep E b [(''config'', config)]"

text \<open>The method \<^verbatim>\<open>_disableTemplates\<close> (an identifier cannot start with an underscore).\<close>

definition disableTemplates :: "'t builder \<Rightarrow> 't builder" where
  "disableTemplates b =
     BaseBuilder (st_fieldBuilders b) (st_isOptional b) (st_templateProviderCallback b)
       (st_lazyTemplateProvider b) (st_type b) True (st_options b)"

subsection \<open>Method calls as data\<close>

text \<open>
  A call of a state-bearing method, with its arguments. The parameter \<open>'c\<close> is how a
  builder argument is given: the builder itself, or its address in a store.
\<close>

datatype ('c, 't) call =
    SetDisabled jsval
  | SetLabel jsval
  | SetName jsval
  | SetValue jsval
  | SetText jsval
  | SetHelp jsval
  | SetTemplateFactory jsval
  | SetLazyTemplateFactory "jsval \<Rightarrow> string + jsval"
  | SetValidationErrorMessageFn jsval
  | SetTransformer jsval
  | AddValidationErrorMessageFn jsval
  | SetField string 'c
  | AddSelectOption 'c
  | SetType "jsval \<Rightarrow> (string \<times> 't) list option \<Rightarrow> string + 't"
  | SetTypeAndValidate 't jsval
  | SetLazyTemplateProvider jsval
  | MakeOptional
  | SetNullOption 'c
  | SetPlaceholder jsval
  | SetAutoFocus jsval
  | SetConfig jsval
  | DisableTemplates

fun invoke :: "'t ext \<Rightarrow> 't builder \<Rightarrow> ('t builder, 't) call \<Rightarrow> error + 't builder" where
  "invoke E b (SetDisabled v) = Inr (setDisabled E b v)"
| "invoke E b (SetLabel v) = Inr (setLabel E b v)"
| "invoke E b (SetName v) = Inr (setName E b v)"
| "invoke E b (SetValue v) = Inr (setValue E b v)"
| "invoke E b (SetText v) = Inr (setText E b v)"
| "invoke E b (SetHelp v) = Inr (setHelp E b v)"
| "invoke E b (SetTemplateFactory v) = Inr (setTemplateFactory E b v)"
| "invoke E b (SetLazyTemplateFactory f) = Inr (setLazyTemplateFactory b f)"
| "invoke E b (SetValidationErrorMessageFn v) = Inr (setValidationErrorMessageFn E b v)"
| "invoke E b (SetTransformer v) = Inr (setTransformer E b v)"
| "invoke E b (AddValidationErrorMessageFn v) = addValidationErrorMessageFn E b v"
| "invoke E b (SetField key c) = setField b key c"
| "invoke E b (AddSelectOption c) = addSelectOption E b c"
| "invoke E b (SetType f) = Inr (setType b f)"
| "invoke E b (SetTypeAndValidate t name) = Inr (setTypeAndValidate E b t name)"
| "invoke E b (SetLazyTemplateProvider p) = Inr (setLazyTemplateProvider b p)"
| "invoke E b MakeOptional = Inr (makeOptional b)"
| "invoke E b (SetNullOption c) = setNullOption E b c"
| "invoke E b (SetPlaceholder v) = Inr (setPlaceholder E b v)"
| "invoke E b (SetAutoFocus v) = Inr (setAutoFocus E b v)"
| "invoke E b (SetConfig v) = Inr (setConfig E b v)"
| "invoke E b DisableTemplates = Inr (disableTemplates b)"

text \<open>A chain \<^verbatim>\<open>b.m1(..).m2(..)...\<close>; the first method that throws ends it.\<close>

fun chain :: "'t ext \<Rightarrow> 't builder \<Rightarrow> ('t builder, 't) call list \<Rightarrow> error + 't builder" where
  "chain E b [] = Inr b"
| "chain E b (c # cs) = (case invoke E b c of Inl e \<Rightarrow> Inl e | Inr b' \<Rightarrow> chain E b' cs)"

fun isSetField :: "('c, 't) call \<Rightarrow> bool" where
  "isSetField (SetField key c) = True"
| "isSetField other = False"

fun isAddSelectOption :: "('c, 't) call \<Rightarrow> bool" where
  "isAddSelectOption (AddSelectOption c) = True"
| "isAddSelectOption other = False"

text \<open>The keys of the \<^verbatim>\<open>setField\<close> calls of a chain, in the order of the calls.\<close>

fun fieldKeys :: "('c, 't) call list \<Rightarrow> string list" where
  "fieldKeys [] = []"
| "fieldKeys (SetField key c # cs) = key # fieldKeys cs"
| "fieldKeys (other # cs) = fieldKeys cs"

subsection \<open>Builder objects on a heap\<close>

text \<open>
  A builder is an object, and a variable or a key of \<^verbatim>\<open>_fieldBuilders\<close> holds a reference to
  it. The heap is the list of the builder objects allocated so far and a reference is an
  index into it. An object holds its \<^verbatim>\<open>_state\<close>; the state holds the field builders by
  reference, so a write to the state of a field builder would show in every builder that
  has the field.
\<close>

record 't obj =
  obj_fieldBuilders :: "(string \<times> nat) list"
  obj_isOptional :: bool
  obj_templateProviderCallback :: "(jsval \<Rightarrow> string + jsval) option"
  obj_lazyTemplateProvider :: jsval
  obj_type :: "(jsval \<Rightarrow> (string \<times> 't) list option \<Rightarrow> string + 't) option"
  obj_disableTemplates :: bool
  obj_options :: jsobj

type_synonym 't heap = "'t obj list"

text \<open>
  \<^verbatim>\<open>new BaseBuilder(state)\<close> allocates an object, and its constructor writes the state into
  the new object; a method that throws returns the heap it was given.
\<close>

definition new_BaseBuilder :: "'t heap \<Rightarrow> 't obj \<Rightarrow> 't heap \<times> (error + nat)" where
  "new_BaseBuilder h state = (h @ [state], Inr (length h))"

definition throw :: "'t heap \<Rightarrow> error \<Rightarrow> 't heap \<times> (error + nat)" where
  "throw h e = (h, Inl e)"

text \<open>
  What \<^verbatim>\<open>getType()\<close> and \<^verbatim>\<open>getOptions()\<close> read of the heap: the object and, through the
  references of its field builders, the objects below it. A field builder exists before
  the \<^verbatim>\<open>setField\<close> call that takes it, so its reference is smaller than that of the object
  the call returns (\<open>ordered\<close>); the recursion follows smaller references only, and in an
  ordered heap it follows them all.
\<close>

function builderAt :: "'t heap \<Rightarrow> nat \<Rightarrow> 't builder" where
  "builderAt h r =
     BaseBuilder
       (map (\<lambda>entry. (fst entry, if snd entry < r then builderAt h (snd entry) else initialState))
          (obj_fieldBuilders (h ! r)))
       (obj_isOptional (h ! r)) (obj_templateProviderCallback (h ! r))
       (obj_lazyTemplateProvider (h ! r)) (obj_type (h ! r)) (obj_disableTemplates (h ! r))
       (obj_options (h ! r))"
  by pat_completeness auto
termination
  by (relation "measure snd") auto

definition ordered :: "'t heap \<Rightarrow> bool" where
  "ordered h = (\<forall>i < length h. \<forall>entry \<in> set (obj_fieldBuilders (h ! i)). snd entry < i)"

definition obj_getType :: "'t ext \<Rightarrow> 't heap \<Rightarrow> nat \<Rightarrow> error + 't" where
  "obj_getType E h this = getType E (builderAt h this)"

definition obj_getOptions :: "'t ext \<Rightarrow> 't heap \<Rightarrow> nat \<Rightarrow> jsval \<Rightarrow> bool option \<Rightarrow> error + jsobj" where
  "obj_getOptions E h this lazyTemplateProvider config =
     getOptions E (builderAt h this) lazyTemplateProvider config"

text \<open>\<^verbatim>\<open>this._state.mergeDeep({ options: obj })\<close>, on the state of an object.\<close>

definition obj_mergeDeep :: "'t ext \<Rightarrow> 't obj \<Rightarrow> jsobj \<Rightarrow> 't obj" where
  "obj_mergeDeep E state obj = state\<lparr>obj_options := mergeDeep (list_merge E) (obj_options state) obj\<rparr>"

text \<open>
  The methods, as they act on the heap: one equation for each method of the class, with
  the heap before the call, the reference \<open>this\<close> and the arguments, builders among them
  given by reference. The result is the heap after the call and the reference returned, or
  the error thrown.
\<close>

fun obj_call :: "'t ext \<Rightarrow> 't heap \<Rightarrow> nat \<Rightarrow> (nat, 't) call \<Rightarrow> 't heap \<times> (error + nat)" where
  "obj_call E h this (SetDisabled disabled) =
     new_BaseBuilder h (obj_mergeDeep E (h ! this) [(''disabled'', disabled)])"
| "obj_call E h this (SetLabel label) =
     new_BaseBuilder h (obj_mergeDeep E (h ! this) [(''label'', label)])"
| "obj_call E h this (SetName name) =
     new_BaseBuilder h (obj_mergeDeep E (h ! this) [(''name'', name)])"
| "obj_call E h this (SetValue v) =
     new_BaseBuilder h (obj_mergeDeep E (h ! this) [(''value'', v)])"
| "obj_call E h this (SetText txt) =
     new_BaseBuilder h (obj_mergeDeep E (h ! this) [(''text'', txt)])"
| "obj_call E h this (SetHelp help) =
     new_BaseBuilder h (obj_mergeDeep E (h ! this) [(''help'', help)])"
| "obj_call E h this (SetTemplateFactory factory) =
     new_BaseBuilder h (obj_mergeDeep E (h ! this) [(''factory'', factory)])"
| "obj_call E h this (SetLazyTemplateFactory callback) =
     new_BaseBuilder h ((h ! this)\<lparr>obj_templateProviderCallback := Some callback\<rparr>)"
| "obj_call E h this (SetValidationErrorMessageFn err) =
     new_BaseBuilder h (obj_mergeDeep E (h ! this) [(''error'', err)])"
| "obj_call E h this (SetTransformer transformer) =
     new_BaseBuilder h (obj_mergeDeep E (h ! this) [(''transformer'', transformer)])"
| "obj_call E h this (AddValidationErrorMessageFn err) =
     (let existingError =
            (case map_of (obj_options (h ! this)) ''error'' of None \<Rightarrow> JNull | Some v \<Rightarrow> v)
      in if \<not> truthy existingError
         then new_BaseBuilder h (obj_mergeDeep E (h ! this) [(''error'', err)])
         else (case validators_combine E [existingError, err] of
                 Inl msg \<Rightarrow> throw h (External msg)
               | Inr combined \<Rightarrow>
                   new_BaseBuilder h (obj_mergeDeep E (h ! this) [(''error'', combined)])))"
| "obj_call E h this (SetField key fieldBuilder) =
     (if truthy (case map_of (obj_options (h ! this)) ''options'' of None \<Rightarrow> JUndefined | Some v \<Rightarrow> v)
      then throw h (Error field_after_option_message)
      else (case updateIn_push (obj_options (h ! this)) ''order'' (JStr key) of
              Inl e \<Rightarrow> throw h e
            | Inr opts \<Rightarrow>
                new_BaseBuilder h
                  ((h ! this)\<lparr>obj_fieldBuilders :=
                               AList.update key fieldBuilder (obj_fieldBuilders (h ! this)),
                             obj_options := opts\<rparr>)))"
| "obj_call E h this (AddSelectOption selectBuilder) =
     (if obj_fieldBuilders (h ! this) \<noteq> [] then throw h (Error option_after_field_message)
      else (case obj_getOptions E h selectBuilder JUndefined None of
              Inl e \<Rightarrow> throw h e
            | Inr selectOptions \<Rightarrow>
                (case updateIn_push (obj_options (h ! this)) ''options'' (JObj selectOptions) of
                   Inl e \<Rightarrow> throw h e
                 | Inr opts \<Rightarrow> new_BaseBuilder h ((h ! this)\<lparr>obj_options := opts\<rparr>))))"
| "obj_call E h this (SetType typeCombinator) =
     new_BaseBuilder h
       ((h ! this)\<lparr>obj_type := Some (\<lambda>err subTypes. typeCombinator err subTypes)\<rparr>)"
| "obj_call E h this (SetTypeAndValidate type name) =
     new_BaseBuilder h
       ((h ! this)\<lparr>obj_type := Some (\<lambda>errorFn subTypes. validation E type errorFn name)\<rparr>)"
| "obj_call E h this (SetLazyTemplateProvider provider) =
     new_BaseBuilder h ((h ! this)\<lparr>obj_lazyTemplateProvider := provider\<rparr>)"
| "obj_call E h this MakeOptional = new_BaseBuilder h ((h ! this)\<lparr>obj_isOptional := True\<rparr>)"
| "obj_call E h this (SetNullOption selectBuilder) =
     (case obj_getOptions E h selectBuilder JUndefined None of
        Inl e \<Rightarrow> throw h e
      | Inr nullOption \<Rightarrow>
          new_BaseBuilder h (obj_mergeDeep E (h ! this) [(''nullOption'', JObj nullOption)]))"
| "obj_call E h this (SetPlaceholder placeholder) =
     new_BaseBuilder h
       (obj_mergeDeep E (h ! this) [(''attrs'', JObj [(''placeholder'', placeholder)])])"
| "obj_call E h this (SetAutoFocus autoFocus) =
     new_BaseBuilder h (obj_mergeDeep E (h ! this) [(''attrs'', JObj [(''autoFocus'', autoFocus)])])"
| "obj_call E h this (SetConfig config) =
     new_BaseBuilder h (obj_mergeDeep E (h ! this) [(''config'', config)])"
| "obj_call E h this DisableTemplates =
     new_BaseBuilder h ((h ! this)\<lparr>obj_disableTemplates := True\<rparr>)"


subsection \<open>Builders as values in a store\<close>

text \<open>
  The same calls on builders as values: the store is the list of the builders made so far,
  a call takes its builder and its builder arguments out of the store by their indices and
  adds the builder that the method function returns. This is the view of a caller who
  keeps every builder in a variable. The answer is \<open>None\<close> for an index that is not in
  the store.
\<close>

type_synonym 't store = "'t builder list"

definition method_call ::
  "'t ext \<Rightarrow> 't store \<Rightarrow> nat \<Rightarrow> (nat, 't) call \<Rightarrow> ('t store \<times> (error + nat)) option" where
  "method_call E h this c =
     (if this < length h \<and> (\<forall>r \<in> set_call c. r < length h)
      then (case invoke E (h ! this) (map_call (\<lambda>r. h ! r) c) of
              Inl e \<Rightarrow> Some (h, Inl e)
            | Inr b \<Rightarrow> Some (h @ [b], Inr (length h)))
      else None)"

subsection \<open>Builders that the methods can produce\<close>

text \<open>
  The constructor takes any state, but the methods produce states of one shape only: the
  keys of \<^verbatim>\<open>_fieldBuilders\<close> are those of a map; the key \<^verbatim>\<open>fields\<close> of the options is written
  by \<^verbatim>\<open>getOptions\<close> into its result and never into a state; and the keys \<^verbatim>\<open>order\<close> and
  \<^verbatim>\<open>options\<close> are written by \<^verbatim>\<open>setField\<close> and \<^verbatim>\<open>addSelectOption\<close> only, which store lists.
  All of it holds of \<open>initialState\<close> and is kept by every method (lemmas
  \<open>wellFormed_initialState\<close> and \<open>invoke_wellFormed\<close> below).
\<close>

fun listOrUnset :: "jsval option \<Rightarrow> bool" where
  "listOrUnset None = True"
| "listOrUnset (Some (JArr xs)) = True"
| "listOrUnset (Some v) = False"

fun wellFormed :: "'t builder \<Rightarrow> bool" where
  "wellFormed (BaseBuilder fbs isOpt cb own ty dis opts) =
     (distinct (map fst fbs) \<and> map_of opts ''fields'' = None \<and>
      listOrUnset (map_of opts ''order'') \<and> listOrUnset (map_of opts ''options'') \<and>
      (\<forall>field \<in> set (map snd fbs). wellFormed field))"

text \<open>The test of \<^verbatim>\<open>setField\<close>: \<^verbatim>\<open>this._state.getIn(['options', 'options'])\<close> is truthy.\<close>

definition hasSelectOptions :: "'t builder \<Rightarrow> bool" where
  "hasSelectOptions b = truthy (getIn_options b ''options'' JUndefined)"

text \<open>Reading a realized configuration: the list under a key, and a path of field keys.\<close>

definition listIn :: "jsobj \<Rightarrow> string \<Rightarrow> jsval list" where
  "listIn opts key = (case map_of opts key of Some (JArr xs) \<Rightarrow> xs | _ \<Rightarrow> [])"

fun fieldAt :: "jsobj \<Rightarrow> string \<Rightarrow> jsobj option" where
  "fieldAt cfg key =
     (case map_of cfg ''fields'' of
        Some (JObj fs) \<Rightarrow> (case map_of fs key of Some (JObj c) \<Rightarrow> Some c | _ \<Rightarrow> None)
      | _ \<Rightarrow> None)"

text \<open>
  The two values \<^verbatim>\<open>getOptions\<close> resolves first: \<^verbatim>\<open>lazyTemplateProvider || this._state.get('_lazyTemplateProvider')\<close>
  and the destructuring default \<^verbatim>\<open>disableTemplates = this._state.get('_disableTemplates', false)\<close>.
\<close>

definition resolveProvider :: "'t builder \<Rightarrow> jsval \<Rightarrow> jsval" where
  "resolveProvider b lazyTemplateProvider =
     (if truthy lazyTemplateProvider then lazyTemplateProvider else st_lazyTemplateProvider b)"

definition resolveDisableTemplates :: "'t builder \<Rightarrow> bool option \<Rightarrow> bool" where
  "resolveDisableTemplates b config = (case config of None \<Rightarrow> st_disableTemplates b | Some d \<Rightarrow> d)"

text \<open>The descendant of a builder along a path of field keys, and the same path in a
  realized configuration (\<^verbatim>\<open>cfg.fields.k1.fields.k2\<close> ...).\<close>

fun descendant :: "'t builder \<Rightarrow> string list \<Rightarrow> 't builder option" where
  "descendant b [] = Some b"
| "descendant b (key # keys) =
     (case map_of (st_fieldBuilders b) key of None \<Rightarrow> None | Some field \<Rightarrow> descendant field keys)"

fun configAt :: "jsobj \<Rightarrow> string list \<Rightarrow> jsobj option" where
  "configAt cfg [] = Some cfg"
| "configAt cfg (key # keys) =
     (case fieldAt cfg key of None \<Rightarrow> None | Some c \<Rightarrow> configAt c keys)"

text \<open>\<^verbatim>\<open>cfg.fields[key].factory\<close> of a realized configuration.\<close>

definition factoryOfField :: "jsobj \<Rightarrow> string \<Rightarrow> jsval option" where
  "factoryOfField cfg key = (case fieldAt cfg key of None \<Rightarrow> None | Some c \<Rightarrow> map_of c ''factory'')"

text \<open>
  The provider that the \<^verbatim>\<open>getOptions\<close> call of the descendant along a path receives, when
  \<^verbatim>\<open>getOptions\<close> of the builder receives \<open>lazyTemplateProvider\<close>: each builder passes the
  provider it resolved to \<^verbatim>\<open>field.getOptions(provider, { disableTemplates })\<close>.
\<close>

fun providerAt :: "'t builder \<Rightarrow> jsval \<Rightarrow> string list \<Rightarrow> jsval" where
  "providerAt b lazyTemplateProvider [] = lazyTemplateProvider"
| "providerAt b lazyTemplateProvider (key # keys) =
     (case map_of (st_fieldBuilders b) key of
        None \<Rightarrow> JUndefined
      | Some field \<Rightarrow> providerAt field (resolveProvider b lazyTemplateProvider) keys)"

section \<open>Concrete collaborators and builders for the examples\<close>

text \<open>
  A small type system to run the builder on: a leaf type, a struct of named types and the
  optional wrapper, which leaves an optional type as it is, as \<^verbatim>\<open>tcomb.maybe\<close> does. Two
  error functions combine into a third one; a list replaces a list.
\<close>

datatype exampleType = TLeaf string | TStruct "(string \<times> exampleType) list" | TMaybe exampleType

fun exampleMaybe :: "exampleType \<Rightarrow> exampleType" where
  "exampleMaybe (TMaybe t) = TMaybe t"
| "exampleMaybe t = TMaybe t"

definition exampleCombine :: "jsval list \<Rightarrow> string + jsval" where
  "exampleCombine fs =
     (case fs of [JRef f, JRef g] \<Rightarrow> Inr (JRef (10 * f + g)) | _ \<Rightarrow> Inl ''expected two functions'')"

definition ext0 :: "exampleType ext" where
  "ext0 = \<lparr> tcomb_maybe = exampleMaybe, validators_combine = exampleCombine,
            validation = (\<lambda>t errorFn name. Inr t), list_merge = (\<lambda>existing v. v) \<rparr>"

definition exampleCallback :: "jsval \<Rightarrow> string + jsval" where
  "exampleCallback provider = Inr (JObj [(''template'', provider)])"

definition stringType :: "jsval \<Rightarrow> (string \<times> exampleType) list option \<Rightarrow> string + exampleType" where
  "stringType err subTypes = Inr (TLeaf ''String'')"

definition labelField :: "exampleType builder" where
  "labelField = setLabel ext0 initialState (JStr ''Name'')"

definition callbackField :: "exampleType builder" where
  "callbackField = setLazyTemplateFactory initialState exampleCallback"

definition yesOption :: "exampleType builder" where
  "yesOption = setText ext0 (setValue ext0 initialState (JBool True)) (JStr ''Yes'')"

text \<open>A form with a provider, whose field \<^verbatim>\<open>address\<close> has the field \<^verbatim>\<open>street\<close>.\<close>

definition addressField :: "exampleType builder" where
  "addressField =
     BaseBuilder [(''street'', callbackField)] False None JNull None False
       [(''order'', JArr [JStr ''street''])]"

definition personForm :: "exampleType builder" where
  "personForm =
     BaseBuilder [(''address'', addressField)] False None (JRef 1) None False
       [(''order'', JArr [JStr ''address''])]"

text \<open>A form without a provider, whose field \<^verbatim>\<open>address\<close> has a provider of its own.\<close>

definition ownProviderAddress :: "exampleType builder" where
  "ownProviderAddress =
     BaseBuilder [(''street'', callbackField)] False None (JRef 2) None False
       [(''order'', JArr [JStr ''street''])]"

definition plainForm :: "exampleType builder" where
  "plainForm =
     BaseBuilder [(''address'', ownProviderAddress)] False None JNull None False
       [(''order'', JArr [JStr ''address''])]"

text \<open>The objects of a new builder and of one with a label.\<close>

definition emptyObj :: "exampleType obj" where
  "emptyObj =
     \<lparr> obj_fieldBuilders = [], obj_isOptional = False, obj_templateProviderCallback = None,
       obj_lazyTemplateProvider = JNull, obj_type = None, obj_disableTemplates = False,
       obj_options = [] \<rparr>"

definition labelObj :: "exampleType obj" where
  "labelObj = emptyObj\<lparr>obj_options := [(''label'', JStr ''Name'')]\<rparr>"

section \<open>Facts about the state layer and the realization\<close>

subsection \<open>The realization functions in terms of the state\<close>

lemma getType_sel:
  "getType E b =
     (if st_isOptional b
      then (case realizeType E b of Inl e \<Rightarrow> Inl e | Inr t \<Rightarrow> Inr (tcomb_maybe E t))
      else realizeType E b)"
  by (cases b) (simp add: realizeType_def getIn_options_def Let_def cong: sum.case_cong)

text \<open>
  Claim C1. A builder with no field builders and an empty \<^verbatim>\<open>_type\<close> slot (neither \<^verbatim>\<open>setType\<close>
  nor \<^verbatim>\<open>setTypeAndValidate\<close> was called) cannot be realized: \<^verbatim>\<open>getType()\<close> fails, for every
  value of the optional flag. The failure is the \<^verbatim>\<open>TypeError\<close> of calling the \<^verbatim>\<open>null\<close> slot: the
  source has no message of its own for a type that is not set.
\<close>

lemma getOptions_sel:
  "getOptions E b lazyTemplateProvider config =
     (if map_of (st_options b) ''factory'' = None \<and> st_templateProviderCallback b \<noteq> None \<and>
         \<not> truthy (resolveProvider b lazyTemplateProvider) \<and> \<not> resolveDisableTemplates b config
      then Inl (Error no_provider_message)
      else (case getFieldOptions E (st_fieldBuilders b) (resolveProvider b lazyTemplateProvider)
                   (resolveDisableTemplates b config) [] of
              Inl e \<Rightarrow> Inl e
            | Inr subFields \<Rightarrow>
                (case (case st_templateProviderCallback b of
                         None \<Rightarrow> Inr (st_options b)
                       | Some templateProviderCallback \<Rightarrow>
                           if map_of (st_options b) ''factory'' = None \<and> \<not> resolveDisableTemplates b config
                           then (case templateProviderCallback (resolveProvider b lazyTemplateProvider) of
                                   Inl msg \<Rightarrow> Inl (External msg)
                                 | Inr factory \<Rightarrow>
                                     Inr (mergeDeep (list_merge E) (st_options b) [(''factory'', factory)]))
                           else Inr (st_options b)) of
                   Inl e \<Rightarrow> Inl e
                 | Inr options \<Rightarrow>
                     Inr (if st_fieldBuilders b = [] then options
                          else mergeDeep (list_merge E) options [(''fields'', JObj subFields)]))))"
  by (cases b)
    (simp add: Let_def resolveProvider_def resolveDisableTemplates_def
      cong: sum.case_cong option.case_cong if_cong)

lemma state_mergeDeep_sel:
  "st_fieldBuilders (state_mergeDeep E b obj) = st_fieldBuilders b"
  "st_isOptional (state_mergeDeep E b obj) = st_isOptional b"
  "st_templateProviderCallback (state_mergeDeep E b obj) = st_templateProviderCallback b"
  "st_lazyTemplateProvider (state_mergeDeep E b obj) = st_lazyTemplateProvider b"
  "st_type (state_mergeDeep E b obj) = st_type b"
  "st_disableTemplates (state_mergeDeep E b obj) = st_disableTemplates b"
  "st_options (state_mergeDeep E b obj) = mergeDeep (list_merge E) (st_options b) obj"
  by (simp_all add: state_mergeDeep_def set_options_def)

lemma builder_sels:
  "st_fieldBuilders (set_options opts b) = st_fieldBuilders b"
  "st_isOptional (set_options opts b) = st_isOptional b"
  "st_templateProviderCallback (set_options opts b) = st_templateProviderCallback b"
  "st_lazyTemplateProvider (set_options opts b) = st_lazyTemplateProvider b"
  "st_type (set_options opts b) = st_type b"
  "st_disableTemplates (set_options opts b) = st_disableTemplates b"
  "st_options (set_options opts b) = opts"
  by (simp_all add: set_options_def)

lemmas setter_defs =
  setDisabled_def setLabel_def setName_def setValue_def setText_def setHelp_def
  setTemplateFactory_def setLazyTemplateFactory_def setValidationErrorMessageFn_def
  setTransformer_def setType_def setTypeAndValidate_def setLazyTemplateProvider_def
  makeOptional_def setPlaceholder_def setAutoFocus_def setConfig_def disableTemplates_def

lemmas example_defs =
  ext0_def exampleCombine_def exampleCallback_def stringType_def labelField_def callbackField_def
  yesOption_def initialState_def

lemmas method_defs =
  setter_defs state_mergeDeep_def set_options_def getIn_options_def updateIn_push_def
  setField_def addSelectOption_def setNullOption_def addValidationErrorMessageFn_def
  resolveProvider_def resolveDisableTemplates_def listIn_def

subsection \<open>What a method writes\<close>

lemma updateIn_push_Inr:
  assumes "updateIn_push opts key x = Inr opts'"
  shows "opts' = AList.update key (JArr (listIn opts key @ [x])) opts"
    and "listOrUnset (map_of opts key)"
  using assms
  by (auto simp: updateIn_push_def listIn_def split: option.splits jsval.splits)

lemma updateIn_push_ok:
  "listOrUnset (map_of opts key) \<Longrightarrow>
   updateIn_push opts key x = Inr (AList.update key (JArr (listIn opts key @ [x])) opts)"
  by (cases "map_of opts key" rule: listOrUnset.cases)
     (simp_all add: updateIn_push_def listIn_def)

lemma listIn_update_same: "listIn (AList.update key (JArr xs) opts) key = xs"
  by (simp add: listIn_def update_conv')

lemma set_update_subset: "set (AList.update k v al) \<subseteq> insert (k, v) (set al)"
  by (induction al) auto

lemma update_nonempty': "[] \<noteq> AList.update k v al"
  using update_nonempty [of k v al] by (rule not_sym)

lemma setField_Inr:
  assumes "setField b key field = Inr b'"
  shows "st_fieldBuilders b' = AList.update key field (st_fieldBuilders b)"
    and "st_options b' =
           AList.update ''order'' (JArr (listIn (st_options b) ''order'' @ [JStr key])) (st_options b)"
    and "st_isOptional b' = st_isOptional b"
    and "st_templateProviderCallback b' = st_templateProviderCallback b"
    and "st_lazyTemplateProvider b' = st_lazyTemplateProvider b"
    and "st_type b' = st_type b"
    and "st_disableTemplates b' = st_disableTemplates b"
    and "\<not> hasSelectOptions b"
  using assms
  by (auto simp: setField_def hasSelectOptions_def dest!: updateIn_push_Inr(1)
      split: if_splits sum.splits)

lemma addSelectOption_Inr:
  assumes "addSelectOption E b opt = Inr b'"
  shows "\<exists>snapshot. getOptions E opt JUndefined None = Inr snapshot \<and>
           b' = set_options
                  (AList.update ''options''
                     (JArr (listIn (st_options b) ''options'' @ [JObj snapshot])) (st_options b)) b"
    and "st_fieldBuilders b = []"
    and "listOrUnset (map_of (st_options b) ''options'')"
  using assms
  by (auto simp: addSelectOption_def dest: updateIn_push_Inr split: if_splits sum.splits)

lemma setField_cases:
  "setField b key field =
     (if hasSelectOptions b then Inl (Error field_after_option_message)
      else if listOrUnset (map_of (st_options b) ''order'')
      then Inr (BaseBuilder (AList.update key field (st_fieldBuilders b)) (st_isOptional b)
                  (st_templateProviderCallback b) (st_lazyTemplateProvider b) (st_type b)
                  (st_disableTemplates b)
                  (AList.update ''order'' (JArr (listIn (st_options b) ''order'' @ [JStr key]))
                     (st_options b)))
      else Inl TypeError)"
proof (cases "listOrUnset (map_of (st_options b) ''order'')")
  case True
  then show ?thesis by (simp add: setField_def hasSelectOptions_def updateIn_push_ok)
next
  case False
  then have "updateIn_push (st_options b) ''order'' (JStr key) = Inl TypeError"
    by (cases "map_of (st_options b) ''order''" rule: listOrUnset.cases)
       (simp_all add: updateIn_push_def)
  with False show ?thesis by (simp add: setField_def hasSelectOptions_def)
qed

lemma addSelectOption_cases:
  "addSelectOption E b opt =
     (if st_fieldBuilders b \<noteq> [] then Inl (Error option_after_field_message)
      else (case getOptions E opt JUndefined None of
              Inl e \<Rightarrow> Inl e
            | Inr snapshot \<Rightarrow>
                if listOrUnset (map_of (st_options b) ''options'')
                then Inr (set_options
                            (AList.update ''options''
                               (JArr (listIn (st_options b) ''options'' @ [JObj snapshot]))
                               (st_options b)) b)
                else Inl TypeError))"
proof (cases "listOrUnset (map_of (st_options b) ''options'')")
  case True
  then show ?thesis by (simp add: addSelectOption_def updateIn_push_ok split: sum.splits)
next
  case False
  then have "\<And>x. updateIn_push (st_options b) ''options'' x = Inl TypeError"
    by (cases "map_of (st_options b) ''options''" rule: listOrUnset.cases)
       (simp_all add: updateIn_push_def)
  with False show ?thesis by (simp add: addSelectOption_def split: sum.splits)
qed

lemma invoke_options_other:
  assumes "invoke E b c = Inr b'"
    and "key \<in> {''order'', ''options'', ''fields''}"
    and "\<not> (isSetField c \<and> key = ''order'')"
    and "\<not> (isAddSelectOption c \<and> key = ''options'')"
  shows "map_of (st_options b') key = map_of (st_options b) key"
  using assms
  by (cases c)
    (auto simp: setter_defs state_mergeDeep_sel update_conv' addValidationErrorMessageFn_def
      setField_def addSelectOption_def setNullOption_def builder_sels Let_def
      dest!: updateIn_push_Inr(1) split: if_splits sum.splits)

lemma invoke_order:
  assumes "invoke E b c = Inr b'"
  shows "map_of (st_options b') ''order'' =
           (if fieldKeys [c] = [] then map_of (st_options b) ''order''
            else Some (JArr (listIn (st_options b) ''order'' @ map JStr (fieldKeys [c]))))"
proof (cases "isSetField c")
  case True
  then obtain key field where "c = SetField key field" by (cases c) auto
  with assms show ?thesis by (auto dest!: setField_Inr(2) simp: update_conv')
next
  case False
  then have "fieldKeys [c] = []" by (cases c) auto
  with False invoke_options_other [OF assms, of "''order''"] show ?thesis by simp
qed

lemma invoke_listOrUnset:
  assumes "invoke E b c = Inr b'" and "key = ''order'' \<or> key = ''options''"
    and "listOrUnset (map_of (st_options b) key)"
  shows "listOrUnset (map_of (st_options b') key)"
proof (cases "(isSetField c \<and> key = ''order'') \<or> (isAddSelectOption c \<and> key = ''options'')")
  case True
  then show ?thesis
  proof
    assume a: "isSetField c \<and> key = ''order''"
    then obtain k field where "c = SetField k field" by (cases c) auto
    with assms(1) a show ?thesis by (auto dest!: setField_Inr(2) simp: update_conv')
  next
    assume a: "isAddSelectOption c \<and> key = ''options''"
    then obtain opt where "c = AddSelectOption opt" by (cases c) auto
    with assms(1) a show ?thesis
      by (auto dest!: addSelectOption_Inr(1) simp: update_conv' builder_sels)
  qed
next
  case False
  with invoke_options_other [OF assms(1), of key] assms(2,3) show ?thesis by auto
qed

lemma invoke_hasSelectOptions:
  assumes "invoke E b c = Inr b'"
  shows "hasSelectOptions b' = (hasSelectOptions b \<or> isAddSelectOption c)"
proof (cases "isAddSelectOption c")
  case True
  then obtain opt where "c = AddSelectOption opt" by (cases c) auto
  with assms show ?thesis
    by (auto dest!: addSelectOption_Inr(1)
        simp: update_conv' builder_sels hasSelectOptions_def getIn_options_def)
next
  case False
  with invoke_options_other [OF assms, of "''options''"] show ?thesis
    by (simp add: hasSelectOptions_def getIn_options_def)
qed

lemma invoke_fieldBuilders_empty:
  assumes "invoke E b c = Inr b'"
  shows "(st_fieldBuilders b' = []) = (st_fieldBuilders b = [] \<and> \<not> isSetField c)"
  using assms
  by (cases c)
    (auto simp: update_nonempty' setter_defs state_mergeDeep_sel addValidationErrorMessageFn_def
      setNullOption_def builder_sels Let_def
      dest!: addSelectOption_Inr(1) setField_Inr(1) split: if_splits sum.splits)

subsection \<open>Chains of calls\<close>

lemma fieldKeys_Cons: "fieldKeys (c # cs) = fieldKeys [c] @ fieldKeys cs"
  by (cases c) auto

lemma chain_order:
  "chain E b cs = Inr b' \<Longrightarrow>
   map_of (st_options b') ''order'' =
     (if fieldKeys cs = [] then map_of (st_options b) ''order''
      else Some (JArr (listIn (st_options b) ''order'' @ map JStr (fieldKeys cs))))"
proof (induction cs arbitrary: b)
  case Nil
  then show ?case by simp
next
  case (Cons c cs)
  from Cons.prems obtain b1 where b1: "invoke E b c = Inr b1" and rest: "chain E b1 cs = Inr b'"
    by (auto split: sum.splits)
  note step = invoke_order [OF b1]
  have l1: "listIn (st_options b1) ''order'' = listIn (st_options b) ''order'' @ map JStr (fieldKeys [c])"
    using step by (simp add: listIn_def split: if_splits)
  show ?case
    using Cons.IH [OF rest] step l1
    by (simp add: fieldKeys_Cons [of c cs] split: if_splits)
qed

lemma chain_order_listIn:
  "chain E b cs = Inr b' \<Longrightarrow>
   listIn (st_options b') ''order'' = listIn (st_options b) ''order'' @ map JStr (fieldKeys cs)"
  by (drule chain_order) (simp add: listIn_def split: if_splits)

lemma chain_invariants:
  "chain E b cs = Inr b' \<Longrightarrow>
   hasSelectOptions b' = (hasSelectOptions b \<or> (\<exists>c \<in> set cs. isAddSelectOption c)) \<and>
   (st_fieldBuilders b' = []) = (st_fieldBuilders b = [] \<and> \<not> (\<exists>c \<in> set cs. isSetField c)) \<and>
   (listOrUnset (map_of (st_options b) ''order'') \<longrightarrow> listOrUnset (map_of (st_options b') ''order'')) \<and>
   (listOrUnset (map_of (st_options b) ''options'') \<longrightarrow> listOrUnset (map_of (st_options b') ''options''))"
proof (induction cs arbitrary: b)
  case Nil
  then show ?case by simp
next
  case (Cons c cs)
  from Cons.prems obtain b1 where b1: "invoke E b c = Inr b1" and rest: "chain E b1 cs = Inr b'"
    by (auto split: sum.splits)
  show ?case
    using Cons.IH [OF rest] invoke_hasSelectOptions [OF b1] invoke_fieldBuilders_empty [OF b1]
      invoke_listOrUnset [OF b1, of "''order''"] invoke_listOrUnset [OF b1, of "''options''"]
    by auto
qed

subsection \<open>Every method keeps a builder well formed\<close>

lemma wellFormed_sel:
  "wellFormed b =
     (distinct (map fst (st_fieldBuilders b)) \<and> map_of (st_options b) ''fields'' = None \<and>
      listOrUnset (map_of (st_options b) ''order'') \<and>
      listOrUnset (map_of (st_options b) ''options'') \<and>
      (\<forall>field \<in> set (map snd (st_fieldBuilders b)). wellFormed field))"
  by (cases b) simp

lemma wellFormed_initialState: "wellFormed initialState"
  by (simp add: initialState_def)

lemma wellFormed_field:
  "wellFormed b \<Longrightarrow> map_of (st_fieldBuilders b) key = Some field \<Longrightarrow> wellFormed field"
  by (auto simp: wellFormed_sel [of b] dest: map_of_SomeD)

lemma invoke_wellFormed:
  assumes "wellFormed b" and "\<forall>arg \<in> set_call c. wellFormed arg" and "invoke E b c = Inr b'"
  shows "wellFormed b'"
proof -
  have other: "map_of (st_options b') ''fields'' = None"
    using invoke_options_other [OF assms(3), of "''fields''"] assms(1)
    by (simp add: wellFormed_sel [of b])
  have order: "listOrUnset (map_of (st_options b') ''order'')"
  proof (cases "isSetField c")
    case True
    then obtain key field where "c = SetField key field" by (cases c) auto
    with assms(3) show ?thesis by (auto dest!: setField_Inr(2) simp: update_conv')
  next
    case False
    with invoke_options_other [OF assms(3), of "''order''"] assms(1)
    show ?thesis by (simp add: wellFormed_sel [of b])
  qed
  have options: "listOrUnset (map_of (st_options b') ''options'')"
  proof (cases "isAddSelectOption c")
    case True
    then obtain opt where "c = AddSelectOption opt" by (cases c) auto
    with assms(3) show ?thesis
      by (auto dest!: addSelectOption_Inr(1) simp: update_conv' builder_sels)
  next
    case False
    with invoke_options_other [OF assms(3), of "''options''"] assms(1)
    show ?thesis by (simp add: wellFormed_sel [of b])
  qed
  have fbs: "distinct (map fst (st_fieldBuilders b')) \<and>
             (\<forall>field \<in> set (map snd (st_fieldBuilders b')). wellFormed field)"
  proof (cases "isSetField c")
    case True
    then obtain key field where c: "c = SetField key field" by (cases c) auto
    with assms(3) have eq: "st_fieldBuilders b' = AList.update key field (st_fieldBuilders b)"
      by (auto dest: setField_Inr(1))
    from c assms(2) have "wellFormed field" by simp
    with assms(1) set_update_subset [of key field "st_fieldBuilders b"] show ?thesis
      by (auto simp: eq distinct_update wellFormed_sel [of b])
  next
    case False
    with assms(3) have "st_fieldBuilders b' = st_fieldBuilders b"
      by (cases c)
        (auto simp: setter_defs state_mergeDeep_sel addValidationErrorMessageFn_def
          setNullOption_def builder_sels Let_def
          dest!: addSelectOption_Inr(1) split: if_splits sum.splits)
    with assms(1) show ?thesis by (simp add: wellFormed_sel [of b])
  qed
  from other order options fbs show ?thesis by (simp add: wellFormed_sel [of b'])
qed

lemma chain_wellFormed:
  "wellFormed b \<Longrightarrow> \<forall>c \<in> set cs. \<forall>arg \<in> set_call c. wellFormed arg \<Longrightarrow>
   chain E b cs = Inr b' \<Longrightarrow> wellFormed b'"
proof (induction cs arbitrary: b)
  case Nil
  then show ?case by simp
next
  case (Cons c cs)
  from Cons.prems(3) obtain b1 where b1: "invoke E b c = Inr b1" and rest: "chain E b1 cs = Inr b'"
    by (auto split: sum.splits)
  from Cons.prems(1,2) b1 have "wellFormed b1" by (auto intro: invoke_wellFormed)
  with Cons.IH [of b1] Cons.prems(2) rest show ?case by simp
qed

subsection \<open>What getOptions returns\<close>

lemma getOptions_keeps_key:
  assumes "getOptions E b p config = Inr cfg" and "key \<noteq> ''factory''" and "key \<noteq> ''fields''"
  shows "map_of cfg key = map_of (st_options b) key"
  using assms
  by (auto simp: getOptions_sel [of E b p config] update_conv'
      split: if_splits sum.splits option.splits)

lemma getFieldOptions_succeeds:
  "\<forall>kf \<in> set fbs. \<exists>r. getOptions E (snd kf) p (Some d) = Inr r \<Longrightarrow>
   \<exists>r. getFieldOptions E fbs p d acc = Inr r"
proof (induction fbs arbitrary: acc)
  case Nil
  show ?case by simp
next
  case (Cons kf fbs)
  obtain key field where kf: "kf = (key, field)" by (cases kf)
  from Cons.prems kf obtain r where r: "getOptions E field p (Some d) = Inr r"
    by auto
  from Cons.prems have "\<exists>r'. getFieldOptions E fbs p d (AList.update key (JObj r) acc) = Inr r'"
    by (intro Cons.IH) simp
  with r kf show ?case by simp
qed

lemma getFieldOptions_other:
  "getFieldOptions E fbs p d acc = Inr r \<Longrightarrow> key \<notin> fst ` set fbs \<Longrightarrow> map_of r key = map_of acc key"
proof (induction fbs arbitrary: acc)
  case Nil
  then show ?case by simp
next
  case (Cons kf fbs)
  obtain k field where kf: "kf = (k, field)" by (cases kf)
  from Cons.prems(1) kf obtain fo where
    rest: "getFieldOptions E fbs p d (AList.update k (JObj fo) acc) = Inr r"
    by (auto split: sum.splits)
  from Cons.prems(2) kf have "key \<notin> fst ` set fbs" and "key \<noteq> k" by auto
  with Cons.IH [OF rest] show ?case by (simp add: update_conv')
qed

lemma getFieldOptions_lookup:
  "getFieldOptions E fbs p d acc = Inr r \<Longrightarrow> distinct (map fst fbs) \<Longrightarrow>
   map_of fbs key = Some field \<Longrightarrow>
   \<exists>fo. getOptions E field p (Some d) = Inr fo \<and> map_of r key = Some (JObj fo)"
proof (induction fbs arbitrary: acc)
  case Nil
  then show ?case by simp
next
  case (Cons kf fbs)
  obtain k f where kf: "kf = (k, f)" by (cases kf)
  from Cons.prems(1) kf obtain fo where
    fo: "getOptions E f p (Some d) = Inr fo" and
    rest: "getFieldOptions E fbs p d (AList.update k (JObj fo) acc) = Inr r"
    by (auto split: sum.splits)
  show ?case
  proof (cases "key = k")
    case True
    with Cons.prems(3) kf have "field = f" by simp
    moreover from Cons.prems(2) kf True have "key \<notin> fst ` set fbs" by simp
    then have "map_of r key = Some (JObj fo)"
      using getFieldOptions_other [OF rest] True by (simp add: update_conv')
    ultimately show ?thesis using fo by simp
  next
    case False
    with Cons.prems(2,3) kf have "distinct (map fst fbs)" and "map_of fbs key = Some field" by simp_all
    with Cons.IH [OF rest] show ?thesis by simp
  qed
qed

lemma getOptions_fields_key:
  assumes "getOptions E b p config = Inr cfg" and "st_fieldBuilders b \<noteq> []"
    and "map_of (st_options b) ''fields'' = None"
  shows "\<exists>sub. getFieldOptions E (st_fieldBuilders b) (resolveProvider b p)
                 (resolveDisableTemplates b config) [] = Inr sub \<and>
               map_of cfg ''fields'' = Some (JObj sub)"
  using assms
  by (auto simp: getOptions_sel [of E b p config] update_conv'
      split: if_splits sum.splits option.splits)

lemma getOptions_field:
  assumes "wellFormed b" and "getOptions E b p config = Inr cfg"
    and "map_of (st_fieldBuilders b) key = Some field"
  shows "\<exists>fo. getOptions E field (resolveProvider b p) (Some (resolveDisableTemplates b config)) = Inr fo \<and>
              fieldAt cfg key = Some fo"
proof -
  from assms(3) have ne: "st_fieldBuilders b \<noteq> []" by auto
  from assms(1) have wf: "distinct (map fst (st_fieldBuilders b))" "map_of (st_options b) ''fields'' = None"
    by (simp_all add: wellFormed_sel [of b])
  from getOptions_fields_key [OF assms(2) ne wf(2)] obtain sub where
    sub: "getFieldOptions E (st_fieldBuilders b) (resolveProvider b p)
            (resolveDisableTemplates b config) [] = Inr sub" and
    cfg: "map_of cfg ''fields'' = Some (JObj sub)"
    by blast
  from getFieldOptions_lookup [OF sub wf(1) assms(3)] obtain fo where
    fo: "getOptions E field (resolveProvider b p) (Some (resolveDisableTemplates b config)) = Inr fo"
      "map_of sub key = Some (JObj fo)"
    by blast
  with cfg show ?thesis by simp
qed

lemma getOptions_factory:
  assumes "getOptions E b p config = Inr cfg" and "st_templateProviderCallback b = Some callback"
    and "map_of (st_options b) ''factory'' = None" and "\<not> resolveDisableTemplates b config"
  shows "\<exists>factory. callback (resolveProvider b p) = Inr factory \<and> map_of cfg ''factory'' = Some factory"
  using assms
  by (auto simp: getOptions_sel [of E b p config] update_conv' split: if_splits sum.splits)

lemma resolve_passed_down:
  "truthy P \<Longrightarrow> resolveProvider field P = P"
  "resolveDisableTemplates field (Some d) = d"
  by (simp_all add: resolveProvider_def resolveDisableTemplates_def)

lemma getOptions_descendant_general:
  "wellFormed b \<Longrightarrow> getOptions E b p config = Inr cfg \<Longrightarrow> descendant b keys = Some d \<Longrightarrow>
   keys \<noteq> [] \<Longrightarrow>
   \<exists>dc. getOptions E d (providerAt b p keys) (Some (resolveDisableTemplates b config)) = Inr dc \<and>
        configAt cfg keys = Some dc"
proof (induction keys arbitrary: b p config cfg)
  case Nil
  then show ?case by simp
next
  case (Cons key keys)
  let ?P = "resolveProvider b p" and ?D = "resolveDisableTemplates b config"
  from Cons.prems(3) obtain field where
    field: "map_of (st_fieldBuilders b) key = Some field" and d: "descendant field keys = Some d"
    by (auto split: option.splits)
  from getOptions_field [OF Cons.prems(1,2) field] obtain fo where
    fo: "getOptions E field ?P (Some ?D) = Inr fo" "fieldAt cfg key = Some fo"
    by blast
  show ?case
  proof (cases "keys = []")
    case True
    with d fo field show ?thesis by simp
  next
    case False
    have wf: "wellFormed field" using Cons.prems(1) field by (rule wellFormed_field)
    from Cons.IH [OF wf fo(1) d False] fo(2) field show ?thesis
      by (simp add: resolve_passed_down)
  qed
qed

lemma providerAt_truthy:
  "truthy (resolveProvider b p) \<Longrightarrow> descendant b keys = Some d \<Longrightarrow> keys \<noteq> [] \<Longrightarrow>
   providerAt b p keys = resolveProvider b p"
proof (induction keys arbitrary: b p)
  case Nil
  then show ?case by simp
next
  case (Cons key keys)
  from Cons.prems(2) obtain field where
    field: "map_of (st_fieldBuilders b) key = Some field" and d: "descendant field keys = Some d"
    by (auto split: option.splits)
  show ?case
  proof (cases "keys = []")
    case True
    with field show ?thesis by simp
  next
    case False
    from Cons.prems(1) have r: "resolveProvider field (resolveProvider b p) = resolveProvider b p"
      by (simp add: resolve_passed_down)
    with Cons.IH [of field "resolveProvider b p", OF _ d False] Cons.prems(1) field
    show ?thesis by simp
  qed
qed

lemma realizeType_makeOptional: "realizeType E (makeOptional b) = realizeType E b"
  by (simp add: realizeType_def makeOptional_def getIn_options_def cong: sum.case_cong)

subsection \<open>The store\<close>

lemma method_call_Some:
  assumes "method_call E h this c = Some (h', res)"
  shows "this < length h"
    and "(\<exists>e. res = Inl e \<and> h' = h \<and> invoke E (h ! this) (map_call (\<lambda>a. h ! a) c) = Inl e) \<or>
         (\<exists>b. res = Inr (length h) \<and> h' = h @ [b] \<and>
              invoke E (h ! this) (map_call (\<lambda>a. h ! a) c) = Inr b)"
  using assms by (auto simp: method_call_def split: if_splits sum.splits)

lemma method_call_keeps_cells:
  "method_call E h this c = Some (h', res) \<Longrightarrow> r < length h \<Longrightarrow> h' ! r = h ! r"
  by (auto dest!: method_call_Some(2) simp: nth_append)

subsection \<open>The heap of builder objects\<close>

declare builderAt.simps [simp del]

lemma builderAt_append:
  "ordered h \<Longrightarrow> r < length h \<Longrightarrow> builderAt (h @ xs) r = builderAt h r"
proof (induction r rule: less_induct)
  case (less r)
  have cell: "(h @ xs) ! r = h ! r" using less.prems(2) by (simp add: nth_append)
  have "builderAt (h @ xs) (snd entry) = builderAt h (snd entry)"
    if "entry \<in> set (obj_fieldBuilders (h ! r))" for entry
  proof -
    from that less.prems have "snd entry < r" by (auto simp: ordered_def)
    with less.IH [of "snd entry"] less.prems show ?thesis by simp
  qed
  then show ?case
    by (simp add: builderAt.simps [of "h @ xs" r] builderAt.simps [of h r] cell)
qed

lemma update_values:
  "(a, b) \<in> set (AList.update k v al) \<Longrightarrow> b = v \<or> b \<in> snd ` set al"
  using set_update_subset [of k v al] by force

lemma map_update:
  "map (\<lambda>entry. (fst entry, f (snd entry))) (AList.update k v al) =
     AList.update k (f v) (map (\<lambda>entry. (fst entry, f (snd entry))) al)"
  by (induction al) auto

lemma obj_call_cases:
  assumes "obj_call E h this c = (h', res)"
  shows "(\<exists>e. res = Inl e \<and> h' = h) \<or>
         (\<exists>state. res = Inr (length h) \<and> h' = h @ [state] \<and>
            snd ` set (obj_fieldBuilders state) \<subseteq>
              snd ` set (obj_fieldBuilders (h ! this)) \<union> set_call c)"
  using assms
  by (cases c)
    (auto simp: new_BaseBuilder_def throw_def obj_mergeDeep_def Let_def
      dest!: update_values split: if_splits sum.splits)

lemma obj_call_ordered:
  assumes "ordered h" and "this < length h" and "\<forall>a \<in> set_call c. a < length h"
    and "obj_call E h this c = (h', res)"
  shows "ordered h'"
proof -
  from obj_call_cases [OF assms(4)] show ?thesis
  proof (elim disjE exE conjE)
    fix e assume "h' = h"
    with assms(1) show ?thesis by simp
  next
    fix state
    assume h': "h' = h @ [state]"
      and refs: "snd ` set (obj_fieldBuilders state) \<subseteq>
                   snd ` set (obj_fieldBuilders (h ! this)) \<union> set_call c"
    have "snd entry < length h" if "entry \<in> set (obj_fieldBuilders state)" for entry
    proof -
      from that refs have "snd entry \<in> snd ` set (obj_fieldBuilders (h ! this)) \<or> snd entry \<in> set_call c"
        by auto
      then show ?thesis
      proof
        assume "snd entry \<in> snd ` set (obj_fieldBuilders (h ! this))"
        then obtain e where "e \<in> set (obj_fieldBuilders (h ! this))" and "snd entry = snd e"
          by auto
        with assms(1,2) have "snd entry < this" by (simp add: ordered_def)
        with assms(2) show ?thesis by simp
      next
        assume "snd entry \<in> set_call c"
        with assms(3) show ?thesis by simp
      qed
    qed
    with assms(1) show ?thesis
      by (auto simp: ordered_def h' nth_append less_Suc_eq)
  qed
qed

lemma builderAt_unfold:
  assumes "ordered h" and "r < length h"
  shows "builderAt h r =
           BaseBuilder
             (map (\<lambda>entry. (fst entry, builderAt h (snd entry))) (obj_fieldBuilders (h ! r)))
             (obj_isOptional (h ! r)) (obj_templateProviderCallback (h ! r))
             (obj_lazyTemplateProvider (h ! r)) (obj_type (h ! r)) (obj_disableTemplates (h ! r))
             (obj_options (h ! r))"
  using assms by (simp add: builderAt.simps [of h r] ordered_def)

lemma builderAt_new:
  assumes "ordered h" and "\<forall>entry \<in> set (obj_fieldBuilders state). snd entry < length h"
  shows "builderAt (h @ [state]) (length h) =
           BaseBuilder
             (map (\<lambda>entry. (fst entry, builderAt h (snd entry))) (obj_fieldBuilders state))
             (obj_isOptional state) (obj_templateProviderCallback state)
             (obj_lazyTemplateProvider state) (obj_type state) (obj_disableTemplates state)
             (obj_options state)"
  using assms by (simp add: builderAt.simps [of "h @ [state]" "length h"] builderAt_append)

lemma obj_call_refines:
  assumes "ordered h" and "this < length h" and "\<forall>a \<in> set_call c. a < length h"
    and "obj_call E h this c = (h', res)"
  shows "invoke E (builderAt h this) (map_call (builderAt h) c) =
           (case res of Inl e \<Rightarrow> Inl e | Inr new \<Rightarrow> Inr (builderAt h' new))"
proof -
  have refs: "\<forall>entry \<in> set (obj_fieldBuilders (h ! this)). snd entry < length h"
    using assms(1,2) by (fastforce simp: ordered_def)
  note unfold = builderAt_unfold [OF assms(1,2)]
  show ?thesis
  proof (cases c)
    case (SetField key fieldBuilder)
    have "snd entry < length h"
      if "entry \<in> set (AList.update key fieldBuilder (obj_fieldBuilders (h ! this)))" for entry
    proof -
      from that have "(fst entry, snd entry) \<in> set (AList.update key fieldBuilder (obj_fieldBuilders (h ! this)))"
        by simp
      from update_values [OF this] refs assms(3) SetField show ?thesis by auto
    qed
    then have new: "\<forall>entry \<in> set (obj_fieldBuilders
        ((h ! this)\<lparr>obj_fieldBuilders := AList.update key fieldBuilder (obj_fieldBuilders (h ! this)),
                    obj_options := opts\<rparr>)). snd entry < length h" for opts
      by simp
    show ?thesis
      using assms(4) SetField
      by (auto simp: unfold new_BaseBuilder_def throw_def builderAt_new [OF assms(1) new]
          setField_def getIn_options_def map_update split: if_splits sum.splits)
  qed (use assms(3,4) refs in \<open>auto simp: unfold new_BaseBuilder_def throw_def obj_mergeDeep_def Let_def
        builderAt_new [OF assms(1)] setter_defs state_mergeDeep_def set_options_def
        addValidationErrorMessageFn_def addSelectOption_def setNullOption_def
        getIn_options_def obj_getOptions_def split: if_splits sum.splits\<close>)
qed

section \<open>The claims\<close>

subsection \<open>C1: realizing a type that was never set\<close>

text \<open>
  Claim C1, as amended. A builder with no field builders and an empty \<^verbatim>\<open>_type\<close> slot
  (neither \<^verbatim>\<open>setType\<close> nor \<^verbatim>\<open>setTypeAndValidate\<close> was called) cannot be realized:
  \<^verbatim>\<open>getType()\<close> fails, whatever the optional flag, with the \<^verbatim>\<open>TypeError\<close> of the JavaScript
  runtime for calling the \<^verbatim>\<open>null\<close> slot. It throws no \<^verbatim>\<open>Error\<close> with a message of the builder:
  \<^verbatim>\<open>getType\<close> has no test for a type that is not set.
\<close>

theorem getType_no_type_set:
  "st_fieldBuilders b = [] \<Longrightarrow> st_type b = None \<Longrightarrow>
   getType E b = Inl TypeError \<and> (\<forall>msg. getType E b \<noteq> Inl (Error msg))"
  by (simp add: getType_sel realizeType_def)

theorem getType_no_type_set_witness:
  "st_fieldBuilders (makeOptional labelField) = [] \<and> st_type (makeOptional labelField) = None \<and>
   getType ext0 (makeOptional labelField) = Inl TypeError"
  using getType_no_type_set [of "makeOptional labelField" ext0]
  by (simp add: initialState_def labelField_def makeOptional_def setLabel_def state_mergeDeep_def
      set_options_def)

text \<open>
  Claim C1 as it is stated fails: on a new builder, which has no fields and no type, the
  error of \<^verbatim>\<open>getType()\<close> is not an error "no type set".
\<close>

theorem getType_no_type_set_counterexample:
  "st_fieldBuilders (initialState :: exampleType builder) = [] \<and>
   st_type (initialState :: exampleType builder) = None \<and>
   getType ext0 initialState = Inl TypeError \<and>
   getType ext0 initialState \<noteq> Inl (Error ''no type set'')"
  by (simp add: initialState_def)

subsection \<open>C2: a template callback without a provider\<close>

text \<open>
  Claim C2. Call the four conditions: no concrete factory is set under \<^verbatim>\<open>options.factory\<close>,
  a template provider callback is set, the resolved provider (the argument, else the
  builder's own) is falsy, and the resolved \<^verbatim>\<open>disableTemplates\<close> (that of \<open>config\<close>, else the
  builder's own flag) is false. Whenever the four hold, \<^verbatim>\<open>getOptions(providerArg, config)\<close>
  fails with the error "A template callback function was specified, but no provider was
  set", before any field is realized and whatever the fields are. When every field builder
  realizes its options under the provider and the flag that are passed down, the call
  fails with that error if and only if the four hold. With no assumption at all, it fails
  with that error if and only if the four hold or the realization of the fields fails
  with it. A failure of a collaborator is an \<open>External\<close> error, never this one.
\<close>

theorem getOptions_no_provider_iff:
  "(map_of (st_options b) ''factory'' = None \<and> st_templateProviderCallback b \<noteq> None \<and>
    \<not> truthy (resolveProvider b providerArg) \<and> \<not> resolveDisableTemplates b config \<longrightarrow>
      getOptions E b providerArg config = Inl (Error no_provider_message)) \<and>
   ((\<forall>(key, field) \<in> set (st_fieldBuilders b).
       \<exists>r. getOptions E field (resolveProvider b providerArg)
              (Some (resolveDisableTemplates b config)) = Inr r) \<longrightarrow>
      (getOptions E b providerArg config = Inl (Error no_provider_message) \<longleftrightarrow>
         map_of (st_options b) ''factory'' = None \<and> st_templateProviderCallback b \<noteq> None \<and>
         \<not> truthy (resolveProvider b providerArg) \<and> \<not> resolveDisableTemplates b config)) \<and>
   (getOptions E b providerArg config = Inl (Error no_provider_message) \<longleftrightarrow>
      (map_of (st_options b) ''factory'' = None \<and> st_templateProviderCallback b \<noteq> None \<and>
       \<not> truthy (resolveProvider b providerArg) \<and> \<not> resolveDisableTemplates b config) \<or>
      getFieldOptions E (st_fieldBuilders b) (resolveProvider b providerArg)
        (resolveDisableTemplates b config) [] = Inl (Error no_provider_message))"
proof (intro conjI impI)
  assume "map_of (st_options b) ''factory'' = None \<and> st_templateProviderCallback b \<noteq> None \<and>
    \<not> truthy (resolveProvider b providerArg) \<and> \<not> resolveDisableTemplates b config"
  then show "getOptions E b providerArg config = Inl (Error no_provider_message)"
    by (simp add: getOptions_sel [of E b providerArg config])
next
  assume children: "\<forall>(key, field) \<in> set (st_fieldBuilders b).
       \<exists>r. getOptions E field (resolveProvider b providerArg)
              (Some (resolveDisableTemplates b config)) = Inr r"
  then have
    "\<forall>kf \<in> set (st_fieldBuilders b).
       \<exists>r. getOptions E (snd kf) (resolveProvider b providerArg)
              (Some (resolveDisableTemplates b config)) = Inr r"
    by auto
  then obtain sub where
    sub: "getFieldOptions E (st_fieldBuilders b) (resolveProvider b providerArg)
            (resolveDisableTemplates b config) [] = Inr sub"
    using getFieldOptions_succeeds by blast
  show "getOptions E b providerArg config = Inl (Error no_provider_message) \<longleftrightarrow>
         map_of (st_options b) ''factory'' = None \<and> st_templateProviderCallback b \<noteq> None \<and>
         \<not> truthy (resolveProvider b providerArg) \<and> \<not> resolveDisableTemplates b config"
    by (simp add: getOptions_sel [of E b providerArg config] sub
        split: option.splits sum.splits)
next
  show "getOptions E b providerArg config = Inl (Error no_provider_message) \<longleftrightarrow>
      (map_of (st_options b) ''factory'' = None \<and> st_templateProviderCallback b \<noteq> None \<and>
       \<not> truthy (resolveProvider b providerArg) \<and> \<not> resolveDisableTemplates b config) \<or>
      getFieldOptions E (st_fieldBuilders b) (resolveProvider b providerArg)
        (resolveDisableTemplates b config) [] = Inl (Error no_provider_message)"
    by (auto simp: getOptions_sel [of E b providerArg config]
        split: option.splits sum.splits if_splits)
qed

theorem getOptions_no_provider_iff_witness:
  "getOptions ext0
     (BaseBuilder [(''f'', callbackField)] False (Some exampleCallback) JNull None False
        [(''order'', JArr [JStr ''f''])])
     JUndefined None = Inl (Error no_provider_message) \<and>
   getOptions ext0 callbackField JNull (Some False) = Inl (Error no_provider_message) \<and>
   getOptions ext0 (BaseBuilder [(''f'', labelField)] False (Some exampleCallback) JNull None False [])
     JUndefined None = Inl (Error no_provider_message) \<and>
   getOptions ext0 labelField JNull (Some False) = Inr [(''label'', JStr ''Name'')]"
proof -
  let ?both = "BaseBuilder [(''f'', callbackField)] False (Some exampleCallback) JNull None False
        [(''order'', JArr [JStr ''f''])] :: exampleType builder"
  let ?one = "BaseBuilder [(''f'', labelField)] False (Some exampleCallback) JNull None False []
        :: exampleType builder"
  have four: "map_of (st_options ?both) ''factory'' = None \<and>
      st_templateProviderCallback ?both \<noteq> None \<and>
      \<not> truthy (resolveProvider ?both JUndefined) \<and> \<not> resolveDisableTemplates ?both None"
    by (simp add: resolveProvider_def resolveDisableTemplates_def)
  note first = getOptions_no_provider_iff
    [where b = ?both and E = ext0 and providerArg = JUndefined and config = None,
     THEN conjunct1, rule_format, OF four]
  have child: "getOptions ext0 labelField JNull (Some False) = Inr [(''label'', JStr ''Name'')]"
    by (simp add: example_defs method_defs)
  then have children: "\<forall>(key, field) \<in> set (st_fieldBuilders ?one).
      \<exists>r. getOptions ext0 field (resolveProvider ?one JUndefined)
             (Some (resolveDisableTemplates ?one None)) = Inr r"
    by (simp add: resolveProvider_def resolveDisableTemplates_def)
  note second = getOptions_no_provider_iff
    [where b = ?one and E = ext0 and providerArg = JUndefined and config = None,
     THEN conjunct2, THEN conjunct1, THEN mp, OF children]
  have "getOptions ext0 ?one JUndefined None = Inl (Error no_provider_message)"
    by (simp add: second resolveProvider_def resolveDisableTemplates_def)
  moreover have "getOptions ext0 callbackField JNull (Some False) = Inl (Error no_provider_message)"
    by (simp add: example_defs method_defs)
  ultimately show ?thesis using first child by simp
qed

subsection \<open>C3: fields and select options exclude each other\<close>

text \<open>
  Claim C3, as amended. Let \<open>b\<close> be the builder that a chain of method calls on a new
  builder returns. If the chain added a select option, \<^verbatim>\<open>setField\<close> on \<open>b\<close> fails; if it set
  a field, \<^verbatim>\<open>addSelectOption\<close> on \<open>b\<close> fails. If it added no select option, \<^verbatim>\<open>setField\<close>
  returns a builder. If it set no field, \<^verbatim>\<open>addSelectOption(opt)\<close> returns a builder exactly
  when \<^verbatim>\<open>opt.getOptions()\<close> returns, and fails with the error of \<^verbatim>\<open>opt.getOptions()\<close> otherwise:
  the option is realized at once.
\<close>

theorem fields_and_select_options_exclusive:
  assumes "chain E initialState cs = Inr b"
  shows "((\<exists>c \<in> set cs. isAddSelectOption c) \<longrightarrow>
            setField b key field = Inl (Error field_after_option_message)) \<and>
         ((\<exists>c \<in> set cs. isSetField c) \<longrightarrow>
            addSelectOption E b opt = Inl (Error option_after_field_message)) \<and>
         (\<not> (\<exists>c \<in> set cs. isAddSelectOption c) \<longrightarrow> (\<exists>b'. setField b key field = Inr b')) \<and>
         (\<not> (\<exists>c \<in> set cs. isSetField c) \<longrightarrow>
            (case getOptions E opt JUndefined None of
               Inl e \<Rightarrow> addSelectOption E b opt = Inl e
             | Inr snapshot \<Rightarrow> \<exists>b'. addSelectOption E b opt = Inr b'))"
proof -
  have init: "\<not> hasSelectOptions (initialState :: 'a builder)"
    "st_fieldBuilders (initialState :: 'a builder) = []"
    "listOrUnset (map_of (st_options (initialState :: 'a builder)) ''order'')"
    "listOrUnset (map_of (st_options (initialState :: 'a builder)) ''options'')"
    by (simp_all add: initialState_def hasSelectOptions_def getIn_options_def)
  from chain_invariants [OF assms] init
  have inv: "hasSelectOptions b = (\<exists>c \<in> set cs. isAddSelectOption c)"
    "(st_fieldBuilders b = []) = (\<not> (\<exists>c \<in> set cs. isSetField c))"
    "listOrUnset (map_of (st_options b) ''order'')"
    "listOrUnset (map_of (st_options b) ''options'')"
    by simp_all
  show ?thesis
    using inv by (auto simp: setField_cases addSelectOption_cases split: sum.splits)
qed

theorem fields_and_select_options_exclusive_witness:
  "chain ext0 initialState [SetLabel (JStr ''Pick''), AddSelectOption yesOption] =
     Inr (BaseBuilder [] False None JNull None False
            [(''label'', JStr ''Pick''),
             (''options'', JArr [JObj [(''value'', JBool True), (''text'', JStr ''Yes'')]])]) \<and>
   setField (BaseBuilder [] False None JNull None False
            [(''label'', JStr ''Pick''),
             (''options'', JArr [JObj [(''value'', JBool True), (''text'', JStr ''Yes'')]])])
     ''a'' labelField = Inl (Error field_after_option_message)"
proof -
  let ?b = "BaseBuilder [] False None JNull None False
            [(''label'', JStr ''Pick''),
             (''options'', JArr [JObj [(''value'', JBool True), (''text'', JStr ''Yes'')]])]
            :: exampleType builder"
  have c: "chain ext0 initialState [SetLabel (JStr ''Pick''), AddSelectOption yesOption] = Inr ?b"
    by (simp add: example_defs method_defs)
  from fields_and_select_options_exclusive [OF c, of "''a''" labelField yesOption] c
  show ?thesis by simp
qed

text \<open>
  Claim C3 as it is stated fails: on a new builder, where no field was set,
  \<^verbatim>\<open>addSelectOption\<close> of an option that has a template callback and no provider does not
  succeed.
\<close>

theorem fields_and_select_options_exclusive_counterexample:
  "chain ext0 initialState [] = Inr initialState \<and>
   st_fieldBuilders (initialState :: exampleType builder) = [] \<and>
   addSelectOption ext0 initialState callbackField = Inl (Error no_provider_message)"
  by (simp add: example_defs method_defs)

subsection \<open>C4: the order of the fields only grows\<close>

text \<open>
  Claim C4. Over any chain of method calls that returns, the list \<^verbatim>\<open>options.order\<close> of the
  result is that of the start followed by the keys of the \<^verbatim>\<open>setField\<close> calls, in the order
  of the calls: each \<^verbatim>\<open>setField\<close> appends its key and no method removes or moves one. The
  realized configuration has the same list; from a new builder, after
  \<^verbatim>\<open>setField('a', x).setField('b', y)\<close>, it is \<^verbatim>\<open>['a', 'b']\<close>.
\<close>

theorem setField_appends_to_order:
  assumes "chain E b cs = Inr b'"
  shows "listIn (st_options b') ''order'' = listIn (st_options b) ''order'' @ map JStr (fieldKeys cs) \<and>
         (\<forall>key field b1. setField b key field = Inr b1 \<longrightarrow>
            listIn (st_options b1) ''order'' = listIn (st_options b) ''order'' @ [JStr key]) \<and>
         (\<forall>p config cfg. getOptions E b' p config = Inr cfg \<longrightarrow>
            listIn cfg ''order'' = listIn (st_options b) ''order'' @ map JStr (fieldKeys cs)) \<and>
         (\<forall>p config cfg. b = initialState \<and> fieldKeys cs \<noteq> [] \<and> getOptions E b' p config = Inr cfg \<longrightarrow>
            map_of cfg ''order'' = Some (JArr (map JStr (fieldKeys cs))))"
proof (intro conjI allI impI)
  show l: "listIn (st_options b') ''order'' = listIn (st_options b) ''order'' @ map JStr (fieldKeys cs)"
    using assms by (rule chain_order_listIn)
  show "listIn (st_options b1) ''order'' = listIn (st_options b) ''order'' @ [JStr key]"
    if "setField b key field = Inr b1" for key field b1
    using that by (auto dest!: setField_Inr(2) simp: listIn_update_same)
  show "listIn cfg ''order'' = listIn (st_options b) ''order'' @ map JStr (fieldKeys cs)"
    if "getOptions E b' p config = Inr cfg" for p config cfg
    using getOptions_keeps_key [OF that, of "''order''"] l by (simp add: listIn_def)
  show "map_of cfg ''order'' = Some (JArr (map JStr (fieldKeys cs)))"
    if "b = initialState \<and> fieldKeys cs \<noteq> [] \<and> getOptions E b' p config = Inr cfg" for p config cfg
  proof -
    from that have g: "getOptions E b' p config = Inr cfg" by simp
    from that chain_order [OF assms] getOptions_keeps_key [OF g, of "''order''"]
    show ?thesis by (simp add: initialState_def listIn_def)
  qed
qed

theorem setField_appends_to_order_witness:
  "chain ext0 initialState [SetField ''a'' labelField, SetLabel (JStr ''Form''), SetField ''b'' yesOption] =
     Inr (BaseBuilder [(''a'', labelField), (''b'', yesOption)] False None JNull None False
            [(''order'', JArr [JStr ''a'', JStr ''b'']), (''label'', JStr ''Form'')]) \<and>
   getOptions ext0
     (BaseBuilder [(''a'', labelField), (''b'', yesOption)] False None JNull None False
        [(''order'', JArr [JStr ''a'', JStr ''b'']), (''label'', JStr ''Form'')]) JUndefined None =
     Inr [(''order'', JArr [JStr ''a'', JStr ''b'']), (''label'', JStr ''Form''),
          (''fields'', JObj [(''a'', JObj [(''label'', JStr ''Name'')]),
                            (''b'', JObj [(''value'', JBool True), (''text'', JStr ''Yes'')])])] \<and>
   listIn [(''order'', JArr [JStr ''a'', JStr ''b'']), (''label'', JStr ''Form''),
          (''fields'', JObj [(''a'', JObj [(''label'', JStr ''Name'')]),
                            (''b'', JObj [(''value'', JBool True), (''text'', JStr ''Yes'')])])]
     ''order'' = [JStr ''a'', JStr ''b'']"
proof -
  let ?b = "BaseBuilder [(''a'', labelField), (''b'', yesOption)] False None JNull None False
            [(''order'', JArr [JStr ''a'', JStr ''b'']), (''label'', JStr ''Form'')]"
  let ?cs = "[SetField ''a'' labelField, SetLabel (JStr ''Form''), SetField ''b'' yesOption]"
  let ?cfg = "[(''order'', JArr [JStr ''a'', JStr ''b'']), (''label'', JStr ''Form''),
          (''fields'', JObj [(''a'', JObj [(''label'', JStr ''Name'')]),
                            (''b'', JObj [(''value'', JBool True), (''text'', JStr ''Yes'')])])]"
  have c: "chain ext0 initialState ?cs = Inr ?b"
    by (simp add: initialState_def method_defs)
  have g: "getOptions ext0 ?b JUndefined None = Inr ?cfg"
    by (simp add: example_defs method_defs)
  note t = setField_appends_to_order
    [OF c, THEN conjunct2, THEN conjunct2, THEN conjunct1, rule_format, OF g]
  from t c g show ?thesis by (simp add: initialState_def listIn_def)
qed

subsection \<open>C5: a method leaves its builder as it was\<close>

text \<open>
  Claim C5. On a heap where every field builder was allocated before the builder that
  holds it, a call of any state-bearing method, on any builder object and with any
  arguments, writes no object of the heap: every builder object \<open>r\<close> has the state it had,
  and \<^verbatim>\<open>getType()\<close> and \<^verbatim>\<open>getOptions()\<close> of \<open>r\<close>, which read \<open>r\<close> and the field builders below
  it, return what they returned before the call. When the call returns, its result is a new
  object, at a reference that no builder had, and the builder there is the one that the
  method function computes from the builder at \<open>this\<close> and the builders given; when it
  throws, the heap is the heap before the call. The heap after the call is ordered again.
\<close>

theorem methods_leave_builders_unchanged:
  assumes "ordered h" and "this < length h" and "\<forall>a \<in> set_call c. a < length h"
    and "obj_call E h this c = (h', res)" and "r < length h"
  shows "h' ! r = h ! r \<and>
         obj_getType E h' r = obj_getType E h r \<and>
         (\<forall>p config. obj_getOptions E h' r p config = obj_getOptions E h r p config) \<and>
         ordered h' \<and>
         (\<forall>new. res = Inr new \<longrightarrow>
            new = length h \<and> new \<noteq> r \<and> length h' = Suc (length h) \<and>
            invoke E (builderAt h this) (map_call (builderAt h) c) = Inr (builderAt h' new)) \<and>
         (\<forall>e. res = Inl e \<longrightarrow>
            h' = h \<and> invoke E (builderAt h this) (map_call (builderAt h) c) = Inl e)"
proof -
  from obj_call_cases [OF assms(4)] obtain xs where xs: "h' = h @ xs"
    and res: "(\<exists>e. res = Inl e \<and> xs = []) \<or> (\<exists>state. res = Inr (length h) \<and> xs = [state])"
    by auto
  have cell: "h' ! r = h ! r" using assms(5) by (simp add: xs nth_append)
  have same: "builderAt h' r = builderAt h r"
    using assms(1,5) by (simp add: xs builderAt_append)
  have ord: "ordered h'" using assms(1-4) by (rule obj_call_ordered)
  note refines = obj_call_refines [OF assms(1-4)]
  from res assms(5) refines have
    "(\<forall>new. res = Inr new \<longrightarrow>
        new = length h \<and> new \<noteq> r \<and> length h' = Suc (length h) \<and>
        invoke E (builderAt h this) (map_call (builderAt h) c) = Inr (builderAt h' new)) \<and>
     (\<forall>e. res = Inl e \<longrightarrow>
        h' = h \<and> invoke E (builderAt h this) (map_call (builderAt h) c) = Inl e)"
    by (auto simp: xs)
  with cell same ord show ?thesis by (simp add: obj_getType_def obj_getOptions_def)
qed

theorem methods_leave_builders_unchanged_witness:
  "ordered [emptyObj, labelObj] \<and>
   obj_call ext0 [emptyObj, labelObj] 0 (SetField ''name'' 1) =
     ([emptyObj, labelObj,
       emptyObj\<lparr>obj_fieldBuilders := [(''name'', 1)],
                obj_options := [(''order'', JArr [JStr ''name''])]\<rparr>], Inr 2) \<and>
   obj_getOptions ext0
     [emptyObj, labelObj,
      emptyObj\<lparr>obj_fieldBuilders := [(''name'', 1)],
               obj_options := [(''order'', JArr [JStr ''name''])]\<rparr>] 0 JUndefined None =
     obj_getOptions ext0 [emptyObj, labelObj] 0 JUndefined None \<and>
   obj_getOptions ext0 [emptyObj, labelObj] 0 JUndefined None = Inr []"
proof -
  let ?h = "[emptyObj, labelObj]"
  let ?h' = "[emptyObj, labelObj,
       emptyObj\<lparr>obj_fieldBuilders := [(''name'', 1)],
                obj_options := [(''order'', JArr [JStr ''name''])]\<rparr>]"
  have o: "ordered ?h"
    by (simp add: ordered_def emptyObj_def labelObj_def less_Suc_eq nth_Cons')
  have c: "obj_call ext0 ?h 0 (SetField ''name'' 1) = (?h', Inr 2)"
    by (simp add: emptyObj_def labelObj_def new_BaseBuilder_def updateIn_push_def)
  have t: "(0::nat) < length ?h" and a: "\<forall>a \<in> set_call (SetField ''name'' (1::nat) :: (nat, exampleType) call). a < length ?h"
    by simp_all
  note kept = methods_leave_builders_unchanged [OF o t a c t]
  have g: "obj_getOptions ext0 ?h 0 JUndefined None = Inr []"
    by (simp only: obj_getOptions_def builderAt.simps [of ?h 0]) (simp add: emptyObj_def)
  from kept o c g show ?thesis by simp
qed

subsection \<open>C6: makeOptional wraps the type\<close>

text \<open>
  Claim C6. If \<^verbatim>\<open>b.getType()\<close> returns the type \<open>t\<close> then \<^verbatim>\<open>b.makeOptional().getType()\<close> returns
  \<^verbatim>\<open>tcomb.maybe(t)\<close>; and for a builder that is not optional \<open>t\<close> is the type that the type
  constructor returned, unwrapped. For a builder that is optional already, \<^verbatim>\<open>makeOptional\<close>
  sets the flag that is set, and \<open>t\<close> is wrapped already: there the statement rests on
  \<^verbatim>\<open>tcomb.maybe\<close> returning an optional type as it is, which the combinator of tcomb does.
\<close>

theorem makeOptional_wraps_type:
  assumes "getType E b = Inr t"
    and "st_isOptional b \<longrightarrow> (\<forall>u. tcomb_maybe E (tcomb_maybe E u) = tcomb_maybe E u)"
  shows "getType E (makeOptional b) = Inr (tcomb_maybe E t) \<and>
         (\<not> st_isOptional b \<longrightarrow> realizeType E b = Inr t)"
proof (cases "st_isOptional b")
  case False
  with assms(1) have "realizeType E b = Inr t" by (simp add: getType_sel [of E b])
  with False show ?thesis
    by (simp add: getType_sel [of E "makeOptional b"] realizeType_makeOptional)
       (simp add: makeOptional_def)
next
  case True
  with assms(1) obtain u where u: "realizeType E b = Inr u" and t: "t = tcomb_maybe E u"
    by (auto simp: getType_sel [of E b] split: sum.splits)
  from True assms(2) have "tcomb_maybe E t = t" by (simp add: t)
  with True u t show ?thesis
    by (simp add: getType_sel [of E "makeOptional b"] realizeType_makeOptional)
       (simp add: makeOptional_def)
qed

theorem makeOptional_wraps_type_witness:
  "getType ext0 (makeOptional (setType labelField stringType)) = Inr (TMaybe (TLeaf ''String'')) \<and>
   st_isOptional (makeOptional (setType labelField stringType)) \<and>
   getType ext0 (makeOptional (makeOptional (setType labelField stringType))) =
     Inr (exampleMaybe (TMaybe (TLeaf ''String'')))"
proof -
  let ?b = "makeOptional (setType labelField stringType)"
  have g: "getType ext0 ?b = Inr (TMaybe (TLeaf ''String''))"
    by (simp add: example_defs method_defs)
  have idem: "exampleMaybe (exampleMaybe u) = exampleMaybe u" for u
    by (cases u) simp_all
  then have h: "st_isOptional ?b \<longrightarrow>
      (\<forall>u. tcomb_maybe ext0 (tcomb_maybe ext0 u) = tcomb_maybe ext0 u)"
    by (simp add: ext0_def)
  from makeOptional_wraps_type [OF g h] g show ?thesis
    by (simp add: ext0_def makeOptional_def)
qed

subsection \<open>C7: the provider reaches the fields\<close>

text \<open>
  Claim C7, as amended. Let \<open>b\<close> be a well-formed builder, \<open>P\<close> a provider, and
  \<open>fieldBuilder\<close> a well-formed builder with a template callback and no concrete factory.
  If templates are not disabled (by the flag of \<open>b\<close>, or by \<open>config\<close>) and
  \<^verbatim>\<open>b.setLazyTemplateProvider(P).setField(key, fieldBuilder).getOptions(undefined, config)\<close>
  returns, then the callback returned a factory for \<open>P\<close> and \<^verbatim>\<open>fields[key].factory\<close> of the
  result is that factory. More generally, whenever \<^verbatim>\<open>getOptions\<close> of a well-formed builder
  returns, the configuration of every descendant, at any depth, is what \<^verbatim>\<open>getOptions\<close> of
  the descendant returns for the resolved \<^verbatim>\<open>disableTemplates\<close> of the root, unchanged, and for
  the provider that its parent resolved; and that provider is the resolved provider of the
  root, unchanged, whenever the root's is truthy.
\<close>

theorem provider_reaches_fields:
  "(wellFormed b \<and> wellFormed fieldBuilder \<and> truthy P \<and>
    setField (setLazyTemplateProvider b P) key fieldBuilder = Inr root \<and>
    getOptions E root JUndefined config = Inr cfg \<and>
    \<not> resolveDisableTemplates b config \<and>
    st_templateProviderCallback fieldBuilder = Some callback \<and>
    map_of (st_options fieldBuilder) ''factory'' = None \<longrightarrow>
      (\<exists>factory. callback P = Inr factory \<and> factoryOfField cfg key = Some factory)) \<and>
   (wellFormed b \<and> getOptions E b p config = Inr cfg \<and>
    keys \<noteq> [] \<and> descendant b keys = Some d \<longrightarrow>
      (\<exists>dc. getOptions E d (providerAt b p keys) (Some (resolveDisableTemplates b config)) = Inr dc \<and>
            configAt cfg keys = Some dc)) \<and>
   (truthy (resolveProvider b p) \<and> keys \<noteq> [] \<and> descendant b keys = Some d \<longrightarrow>
      providerAt b p keys = resolveProvider b p)"
proof (intro conjI impI)
  assume a: "wellFormed b \<and> wellFormed fieldBuilder \<and> truthy P \<and>
    setField (setLazyTemplateProvider b P) key fieldBuilder = Inr root \<and>
    getOptions E root JUndefined config = Inr cfg \<and>
    \<not> resolveDisableTemplates b config \<and>
    st_templateProviderCallback fieldBuilder = Some callback \<and>
    map_of (st_options fieldBuilder) ''factory'' = None"
  then have s: "setField (setLazyTemplateProvider b P) key fieldBuilder = Inr root" by simp
  note sel = setField_Inr [OF s]
  have f: "map_of (st_fieldBuilders root) key = Some fieldBuilder"
    by (simp add: sel(1) update_conv')
  have prov: "resolveProvider root JUndefined = P"
    by (simp add: resolveProvider_def sel(5) setLazyTemplateProvider_def)
  have dis: "\<not> resolveDisableTemplates root config"
    using a by (cases config) (simp_all add: resolveDisableTemplates_def sel(7) setLazyTemplateProvider_def)
  have wf: "wellFormed root"
    using a wellFormed_sel [of b]
    by (simp add: wellFormed_sel [of root] sel(1,2) update_conv' distinct_update
        setLazyTemplateProvider_def)
       (use set_update_subset [of key fieldBuilder "st_fieldBuilders b"] in auto)
  from a have g: "getOptions E root JUndefined config = Inr cfg" by simp
  from getOptions_field [OF wf g f] prov dis obtain fo where
    fo: "getOptions E fieldBuilder P (Some False) = Inr fo" and at: "fieldAt cfg key = Some fo"
    by auto
  from a have cb: "st_templateProviderCallback fieldBuilder = Some callback"
    and nf: "map_of (st_options fieldBuilder) ''factory'' = None" and P: "truthy P" by simp_all
  from getOptions_factory [OF fo cb nf] P obtain factory where
    "callback P = Inr factory" "map_of fo ''factory'' = Some factory"
    by (auto simp: resolve_passed_down)
  with at show "\<exists>factory. callback P = Inr factory \<and> factoryOfField cfg key = Some factory"
    by (simp add: factoryOfField_def)
next
  assume "wellFormed b \<and> getOptions E b p config = Inr cfg \<and>
    keys \<noteq> [] \<and> descendant b keys = Some d"
  then show "\<exists>dc. getOptions E d (providerAt b p keys) (Some (resolveDisableTemplates b config)) = Inr dc \<and>
            configAt cfg keys = Some dc"
    using getOptions_descendant_general [of b E p config cfg keys d] by simp
next
  assume "truthy (resolveProvider b p) \<and> keys \<noteq> [] \<and> descendant b keys = Some d"
  then show "providerAt b p keys = resolveProvider b p"
    using providerAt_truthy [of b p keys d] by simp
qed

theorem provider_reaches_fields_witness:
  "setField (setLazyTemplateProvider initialState (JRef 1)) ''f'' callbackField =
     Inr (BaseBuilder [(''f'', callbackField)] False None (JRef 1) None False
            [(''order'', JArr [JStr ''f''])]) \<and>
   getOptions ext0
     (BaseBuilder [(''f'', callbackField)] False None (JRef 1) None False
        [(''order'', JArr [JStr ''f''])]) JUndefined None =
     Inr [(''order'', JArr [JStr ''f'']),
          (''fields'', JObj [(''f'', JObj [(''factory'', JObj [(''template'', JRef 1)])])])] \<and>
   exampleCallback (JRef 1) = Inr (JObj [(''template'', JRef 1)]) \<and>
   factoryOfField
     [(''order'', JArr [JStr ''f'']),
      (''fields'', JObj [(''f'', JObj [(''factory'', JObj [(''template'', JRef 1)])])])] ''f'' =
     Some (JObj [(''template'', JRef 1)]) \<and>
   descendant personForm [''address'', ''street''] = Some callbackField \<and>
   getOptions ext0 callbackField (JRef 1) (Some False) =
     Inr [(''factory'', JObj [(''template'', JRef 1)])] \<and>
   getOptions ext0 personForm JUndefined None =
     Inr [(''order'', JArr [JStr ''address'']),
          (''fields'',
           JObj [(''address'',
                  JObj [(''order'', JArr [JStr ''street'']),
                        (''fields'',
                         JObj [(''street'', JObj [(''factory'', JObj [(''template'', JRef 1)])])])])])] \<and>
   configAt
     [(''order'', JArr [JStr ''address'']),
      (''fields'',
       JObj [(''address'',
              JObj [(''order'', JArr [JStr ''street'']),
                    (''fields'',
                     JObj [(''street'', JObj [(''factory'', JObj [(''template'', JRef 1)])])])])])]
     [''address'', ''street''] =
     Some [(''factory'', JObj [(''template'', JRef 1)])]"
proof -
  let ?root = "BaseBuilder [(''f'', callbackField)] False None (JRef 1) None False
            [(''order'', JArr [JStr ''f''])] :: exampleType builder"
  let ?cfg = "[(''order'', JArr [JStr ''f'']),
          (''fields'', JObj [(''f'', JObj [(''factory'', JObj [(''template'', JRef 1)])])])]"
  let ?pcfg = "[(''order'', JArr [JStr ''address'']),
      (''fields'',
       JObj [(''address'',
              JObj [(''order'', JArr [JStr ''street'']),
                    (''fields'',
                     JObj [(''street'', JObj [(''factory'', JObj [(''template'', JRef 1)])])])])])]"
  have s: "setField (setLazyTemplateProvider initialState (JRef 1)) ''f'' callbackField = Inr ?root"
    by (simp add: initialState_def method_defs)
  have g: "getOptions ext0 ?root JUndefined None = Inr ?cfg"
    by (simp add: example_defs method_defs)
  have h: "wellFormed (initialState :: exampleType builder) \<and> wellFormed callbackField \<and>
      truthy (JRef 1) \<and>
      setField (setLazyTemplateProvider initialState (JRef 1)) ''f'' callbackField = Inr ?root \<and>
      getOptions ext0 ?root JUndefined None = Inr ?cfg \<and>
      \<not> resolveDisableTemplates (initialState :: exampleType builder) None \<and>
      st_templateProviderCallback callbackField = Some exampleCallback \<and>
      map_of (st_options callbackField) ''factory'' = None"
    using s g by (simp add: callbackField_def initialState_def method_defs)
  note first = provider_reaches_fields
    [where b = "initialState :: exampleType builder" and fieldBuilder = callbackField
       and P = "JRef 1" and key = "''f''" and root = ?root and E = ext0 and config = None
       and cfg = ?cfg and callback = exampleCallback, THEN conjunct1, rule_format, OF h]
  have pg: "getOptions ext0 personForm JUndefined None = Inr ?pcfg"
    by (simp add: personForm_def addressField_def example_defs method_defs)
  have d: "descendant personForm [''address'', ''street''] = Some callbackField"
    by (simp add: personForm_def addressField_def)
  have h2: "wellFormed personForm \<and> getOptions ext0 personForm JUndefined None = Inr ?pcfg \<and>
      [''address'', ''street''] \<noteq> [] \<and>
      descendant personForm [''address'', ''street''] = Some callbackField"
    using pg d
    by (simp add: personForm_def addressField_def callbackField_def initialState_def method_defs)
  note second = provider_reaches_fields
    [where b = personForm and E = ext0 and p = JUndefined and config = None and cfg = ?pcfg
       and keys = "[''address'', ''street'']" and d = callbackField,
     THEN conjunct2, THEN conjunct1, rule_format, OF h2]
  have h3: "truthy (resolveProvider personForm JUndefined) \<and> [''address'', ''street''] \<noteq> [] \<and>
      descendant personForm [''address'', ''street''] = Some callbackField"
    using d by (simp add: personForm_def resolveProvider_def)
  note third = provider_reaches_fields
    [where b = personForm and p = JUndefined and keys = "[''address'', ''street'']"
       and d = callbackField and E = ext0,
     THEN conjunct2, THEN conjunct2, rule_format, OF h3]
  from second third have
    "getOptions ext0 callbackField (JRef 1) (Some False) = Inr [(''factory'', JObj [(''template'', JRef 1)])]"
    by (simp add: personForm_def resolveProvider_def resolveDisableTemplates_def)
  with first s g pg d show ?thesis by (auto simp: exampleCallback_def)
qed

text \<open>
  Claim C7 as it is stated fails twice. On a root builder whose templates are disabled
  (\<^verbatim>\<open>_disableTemplates\<close>), the flag is passed down with the provider, the callback of the field
  is not called, and \<^verbatim>\<open>fields.f\<close> has no factory. And the resolved provider of a root is not
  passed to every descendant when it is falsy: on a root without a provider whose field
  \<^verbatim>\<open>address\<close> has a provider of its own, the field \<^verbatim>\<open>street\<close> below it receives the provider of
  \<^verbatim>\<open>address\<close>; with the provider of the root its \<^verbatim>\<open>getOptions\<close> would have thrown.
\<close>

theorem provider_reaches_fields_counterexample:
  "setField (setLazyTemplateProvider (disableTemplates initialState) (JRef 1)) ''f'' callbackField =
     Inr (BaseBuilder [(''f'', callbackField)] False None (JRef 1) None True
            [(''order'', JArr [JStr ''f''])]) \<and>
   getOptions ext0
     (BaseBuilder [(''f'', callbackField)] False None (JRef 1) None True
        [(''order'', JArr [JStr ''f''])]) JUndefined None =
     Inr [(''order'', JArr [JStr ''f'']), (''fields'', JObj [(''f'', JObj [])])] \<and>
   exampleCallback (JRef 1) = Inr (JObj [(''template'', JRef 1)]) \<and>
   factoryOfField [(''order'', JArr [JStr ''f'']), (''fields'', JObj [(''f'', JObj [])])] ''f'' = None \<and>
   resolveProvider plainForm JUndefined = JNull \<and>
   descendant plainForm [''address'', ''street''] = Some callbackField \<and>
   getOptions ext0 plainForm JUndefined None =
     Inr [(''order'', JArr [JStr ''address'']),
          (''fields'',
           JObj [(''address'',
                  JObj [(''order'', JArr [JStr ''street'']),
                        (''fields'',
                         JObj [(''street'', JObj [(''factory'', JObj [(''template'', JRef 2)])])])])])] \<and>
   getOptions ext0 callbackField JNull (Some False) = Inl (Error no_provider_message) \<and>
   getOptions ext0 callbackField (JRef 2) (Some False) =
     Inr [(''factory'', JObj [(''template'', JRef 2)])] \<and>
   providerAt plainForm JUndefined [''address'', ''street''] = JRef 2"
  by (simp add: example_defs method_defs factoryOfField_def plainForm_def ownProviderAddress_def)


subsection \<open>C8: adding an error message function\<close>

text \<open>
  Claim C8. When no error function is set (\<^verbatim>\<open>options.error\<close> is unset, or falsy),
  \<^verbatim>\<open>addValidationErrorMessageFn(g)\<close> is \<^verbatim>\<open>setValidationErrorMessageFn(g)\<close>, and the realized
  \<^verbatim>\<open>error\<close> is \<open>g\<close>. When an error function \<open>f\<close> is set (a function: not a plain object or an
  array) and \<^verbatim>\<open>validators.combine([f, g])\<close> returns, \<^verbatim>\<open>addValidationErrorMessageFn(g)\<close> returns
  a builder whose realized \<^verbatim>\<open>error\<close> is that combination.
\<close>

theorem addValidationErrorMessageFn_combines:
  "(\<not> truthy (getIn_options b ''error'' JNull) \<longrightarrow>
      addValidationErrorMessageFn E b g = Inr (setValidationErrorMessageFn E b g) \<and>
      (\<forall>p config cfg.
         getOptions E (setValidationErrorMessageFn E b g) p config = Inr cfg \<longrightarrow>
         map_of cfg ''error'' = Some g)) \<and>
   (\<forall>f combined.
      map_of (st_options b) ''error'' = Some f \<and> truthy f \<and> \<not> isCollection f \<and>
      validators_combine E [f, g] = Inr combined \<longrightarrow>
      (\<exists>b'. addValidationErrorMessageFn E b g = Inr b' \<and>
         (\<forall>p config cfg. getOptions E b' p config = Inr cfg \<longrightarrow>
            map_of cfg ''error'' = Some combined)))"
proof (intro conjI allI impI)
  assume falsy: "\<not> truthy (getIn_options b ''error'' JNull)"
  show "addValidationErrorMessageFn E b g = Inr (setValidationErrorMessageFn E b g)"
    using falsy by (simp add: addValidationErrorMessageFn_def)
  show "map_of cfg ''error'' = Some g"
    if "getOptions E (setValidationErrorMessageFn E b g) p config = Inr cfg" for p config cfg
  proof -
    have "deepMerger lm e g = g" if "\<not> truthy e" for lm e
      using that by (cases e) simp_all
    with falsy have "map_of (st_options (setValidationErrorMessageFn E b g)) ''error'' = Some g"
      by (auto simp: setValidationErrorMessageFn_def state_mergeDeep_sel update_conv'
          getIn_options_def split: option.splits)
    with getOptions_keeps_key [OF that, of "''error''"] show ?thesis by simp
  qed
next
  fix f combined
  assume a: "map_of (st_options b) ''error'' = Some f \<and> truthy f \<and> \<not> isCollection f \<and>
      validators_combine E [f, g] = Inr combined"
  let ?b' = "state_mergeDeep E b [(''error'', combined)]"
  from a have r: "addValidationErrorMessageFn E b g = Inr ?b'"
    by (simp add: addValidationErrorMessageFn_def getIn_options_def)
  from a have "deepMerger (list_merge E) f combined = combined" by (cases f) simp_all
  with a have e: "map_of (st_options ?b') ''error'' = Some combined"
    by (simp add: state_mergeDeep_sel update_conv')
  have "map_of cfg ''error'' = Some combined" if "getOptions E ?b' p config = Inr cfg" for p config cfg
    using getOptions_keeps_key [OF that, of "''error''"] e by simp
  with r show "\<exists>b'. addValidationErrorMessageFn E b g = Inr b' \<and>
         (\<forall>p config cfg. getOptions E b' p config = Inr cfg \<longrightarrow>
            map_of cfg ''error'' = Some combined)"
    by blast
qed

theorem addValidationErrorMessageFn_combines_witness:
  "addValidationErrorMessageFn ext0 (setValidationErrorMessageFn ext0 initialState (JRef 1)) (JRef 2) =
     Inr (BaseBuilder [] False None JNull None False [(''error'', JRef 12)]) \<and>
   validators_combine ext0 [JRef 1, JRef 2] = Inr (JRef 12) \<and>
   getOptions ext0 (BaseBuilder [] False None JNull None False [(''error'', JRef 12)] :: exampleType builder)
     JUndefined None = Inr [(''error'', JRef 12)] \<and>
   addValidationErrorMessageFn ext0 initialState (JRef 2) =
     Inr (setValidationErrorMessageFn ext0 initialState (JRef 2)) \<and>
   getOptions ext0 (setValidationErrorMessageFn ext0 initialState (JRef 2)) JUndefined None =
     Inr [(''error'', JRef 2)]"
proof -
  let ?b = "setValidationErrorMessageFn ext0 initialState (JRef 1) :: exampleType builder"
  have h: "map_of (st_options ?b) ''error'' = Some (JRef 1) \<and> truthy (JRef 1) \<and>
      \<not> isCollection (JRef 1) \<and> validators_combine ext0 [JRef 1, JRef 2] = Inr (JRef 12)"
    by (simp add: example_defs method_defs)
  have f: "\<not> truthy (getIn_options (initialState :: exampleType builder) ''error'' JNull)"
    by (simp add: initialState_def getIn_options_def)
  note t1 = addValidationErrorMessageFn_combines
    [where b = ?b and E = ext0 and g = "JRef 2", THEN conjunct2, rule_format, OF h]
  note t2 = addValidationErrorMessageFn_combines
    [where b = "initialState :: exampleType builder" and E = ext0 and g = "JRef 2",
      THEN conjunct1, rule_format, OF f]
  have g1: "getOptions ext0 (BaseBuilder [] False None JNull None False [(''error'', JRef 12)] :: exampleType builder)
     JUndefined None = Inr [(''error'', JRef 12)]"
    by (simp add: example_defs method_defs)
  have g2: "getOptions ext0 (setValidationErrorMessageFn ext0 initialState (JRef 2) :: exampleType builder)
      JUndefined None = Inr [(''error'', JRef 2)]"
    by (simp add: example_defs method_defs)
  have a1: "addValidationErrorMessageFn ext0 ?b (JRef 2) =
     Inr (BaseBuilder [] False None JNull None False [(''error'', JRef 12)])"
    by (simp add: example_defs method_defs)
  from t1 t2 g1 g2 a1 h show ?thesis by simp
qed

subsection \<open>C9: a select option is a snapshot\<close>

text \<open>
  Claim C9. When \<^verbatim>\<open>b.addSelectOption(opt)\<close> returns, \<^verbatim>\<open>opt.getOptions()\<close>, called with no
  provider, has returned a snapshot, and the list \<^verbatim>\<open>options.options\<close> of the result is that of
  \<open>b\<close> followed by the snapshot: the snapshot alone when \<open>b\<close> had no select option. The
  realized configuration has the same list. With the result in a store, no later method
  call, on \<open>opt\<close> or on any other builder, changes it.
\<close>

theorem addSelectOption_snapshot:
  assumes "addSelectOption E b opt = Inr b'"
  shows "\<exists>snapshot.
           getOptions E opt JUndefined None = Inr snapshot \<and>
           listIn (st_options b') ''options'' = listIn (st_options b) ''options'' @ [JObj snapshot] \<and>
           (\<forall>p config cfg. getOptions E b' p config = Inr cfg \<longrightarrow>
              map_of cfg ''options'' =
                Some (JArr (listIn (st_options b) ''options'' @ [JObj snapshot]))) \<and>
           (\<not> hasSelectOptions b \<longrightarrow> listIn (st_options b) ''options'' = []) \<and>
           (\<forall>h r target c h' res.
              r < length h \<and> h ! r = b' \<and> method_call E h target c = Some (h', res) \<longrightarrow>
              h' ! r = b')"
proof -
  from addSelectOption_Inr(1) [OF assms] obtain snapshot where
    s: "getOptions E opt JUndefined None = Inr snapshot" and
    b': "b' = set_options
                  (AList.update ''options''
                     (JArr (listIn (st_options b) ''options'' @ [JObj snapshot])) (st_options b)) b"
    by blast
  have m: "map_of (st_options b') ''options'' =
             Some (JArr (listIn (st_options b) ''options'' @ [JObj snapshot]))"
    by (simp add: b' builder_sels update_conv')
  have "map_of cfg ''options'' = Some (JArr (listIn (st_options b) ''options'' @ [JObj snapshot]))"
    if "getOptions E b' p config = Inr cfg" for p config cfg
    using getOptions_keeps_key [OF that, of "''options''"] m by simp
  moreover have "h' ! r = b'"
    if "r < length h \<and> h ! r = b' \<and> method_call E h target c = Some (h', res)"
    for h r target c h' res
    using that method_call_keeps_cells [of E h target c h' res r] by auto
  moreover have "listIn (st_options b) ''options'' = []" if "\<not> hasSelectOptions b"
    using that addSelectOption_Inr(3) [OF assms]
    by (cases "map_of (st_options b) ''options''" rule: listOrUnset.cases)
       (simp_all add: hasSelectOptions_def getIn_options_def listIn_def)
  ultimately show ?thesis using s m by (auto simp: listIn_def)
qed

theorem addSelectOption_snapshot_witness:
  "addSelectOption ext0 initialState yesOption =
     Inr (BaseBuilder [] False None JNull None False
            [(''options'', JArr [JObj [(''value'', JBool True), (''text'', JStr ''Yes'')]])]) \<and>
   getOptions ext0 yesOption JUndefined None = Inr [(''value'', JBool True), (''text'', JStr ''Yes'')] \<and>
   getOptions ext0
     (BaseBuilder [] False None JNull None False
        [(''options'', JArr [JObj [(''value'', JBool True), (''text'', JStr ''Yes'')]])]
      :: exampleType builder) JUndefined None =
     Inr [(''options'', JArr [JObj [(''value'', JBool True), (''text'', JStr ''Yes'')]])]"
proof -
  let ?b' = "BaseBuilder [] False None JNull None False
            [(''options'', JArr [JObj [(''value'', JBool True), (''text'', JStr ''Yes'')]])]
            :: exampleType builder"
  have a: "addSelectOption ext0 initialState yesOption = Inr ?b'"
    by (simp add: example_defs method_defs)
  from addSelectOption_snapshot [OF a] obtain snapshot where
    "getOptions ext0 yesOption JUndefined None = Inr snapshot"
    "\<forall>p config cfg. getOptions ext0 ?b' p config = Inr cfg \<longrightarrow>
       map_of cfg ''options'' =
         Some (JArr (listIn (st_options (initialState :: exampleType builder)) ''options'' @ [JObj snapshot]))"
    by blast
  then show ?thesis using a by (simp add: example_defs method_defs)
qed

subsection \<open>C10: setting a field twice\<close>

text \<open>
  Claim C10. On a well-formed builder, \<^verbatim>\<open>setField(k, x).setField(k, y)\<close> leaves one entry
  for \<open>k\<close> in the field builders, which is \<open>y\<close>, and the other entries as they were, while
  \<open>k\<close> is appended to \<^verbatim>\<open>options.order\<close> twice; from a new builder the field builders are
  \<open>k\<close> with \<open>y\<close> alone and the order is \<open>k\<close>, \<open>k\<close>.
\<close>

theorem setField_repeated_key:
  assumes "wellFormed b" and "setField b key x = Inr b1" and "setField b1 key y = Inr b2"
  shows "map_of (st_fieldBuilders b2) key = Some y \<and>
         length (filter (\<lambda>entry. fst entry = key) (st_fieldBuilders b2)) = 1 \<and>
         (\<forall>other. other \<noteq> key \<longrightarrow>
            map_of (st_fieldBuilders b2) other = map_of (st_fieldBuilders b) other) \<and>
         listIn (st_options b2) ''order'' = listIn (st_options b) ''order'' @ [JStr key, JStr key] \<and>
         (b = initialState \<longrightarrow>
            st_fieldBuilders b2 = [(key, y)] \<and>
            map_of (st_options b2) ''order'' = Some (JArr [JStr key, JStr key]))"
proof -
  have f2: "st_fieldBuilders b2 = AList.update key y (AList.update key x (st_fieldBuilders b))"
    using setField_Inr(1) [OF assms(2)] setField_Inr(1) [OF assms(3)] by simp
  have o1: "st_options b1 =
     AList.update ''order'' (JArr (listIn (st_options b) ''order'' @ [JStr key])) (st_options b)"
    using assms(2) by (rule setField_Inr(2))
  have o2: "st_options b2 =
     AList.update ''order'' (JArr (listIn (st_options b1) ''order'' @ [JStr key])) (st_options b1)"
    using assms(3) by (rule setField_Inr(2))
  from assms(1) have "distinct (map fst (st_fieldBuilders b))" by (simp add: wellFormed_sel [of b])
  then have d: "distinct (map fst (st_fieldBuilders b2))" by (simp add: f2 distinct_update)
  have m: "map_of (st_fieldBuilders b2) key = Some y" by (simp add: f2 update_conv')
  have "length (filter (\<lambda>entry. fst entry = key) al) = 1"
    if "distinct (map fst al)" and "map_of al key = Some v" for al :: "(string \<times> 'a builder) list" and v
    using that by (induction al) (auto simp: filter_empty_conv image_iff dest: map_of_SomeD split: if_splits)
  with d m have one: "length (filter (\<lambda>entry. fst entry = key) (st_fieldBuilders b2)) = 1" by blast
  have ord: "listIn (st_options b2) ''order'' = listIn (st_options b) ''order'' @ [JStr key, JStr key]"
    by (simp add: o2 o1 listIn_update_same)
  have "map_of (st_options b2) ''order'' = Some (JArr [JStr key, JStr key])" if "b = initialState"
    using that by (simp add: o2 o1 listIn_update_same update_conv') (simp add: initialState_def listIn_def)
  moreover have "st_fieldBuilders b2 = [(key, y)]" if "b = initialState"
    using that by (simp add: f2 initialState_def)
  ultimately show ?thesis using m one ord by (simp add: f2 update_conv')
qed

theorem setField_repeated_key_witness:
  "wellFormed (initialState :: exampleType builder) \<and>
   setField initialState ''k'' labelField =
     Inr (BaseBuilder [(''k'', labelField)] False None JNull None False [(''order'', JArr [JStr ''k''])]) \<and>
   setField (BaseBuilder [(''k'', labelField)] False None JNull None False [(''order'', JArr [JStr ''k''])])
       ''k'' yesOption =
     Inr (BaseBuilder [(''k'', yesOption)] False None JNull None False
            [(''order'', JArr [JStr ''k'', JStr ''k''])]) \<and>
   map_of (st_fieldBuilders (BaseBuilder [(''k'', yesOption)] False None JNull None False
            [(''order'', JArr [JStr ''k'', JStr ''k''])])) ''k'' = Some yesOption \<and>
   listIn (st_options (BaseBuilder [(''k'', yesOption)] False None JNull None False
            [(''order'', JArr [JStr ''k'', JStr ''k''])] :: exampleType builder)) ''order'' =
     [JStr ''k'', JStr ''k'']"
proof -
  let ?b1 = "BaseBuilder [(''k'', labelField)] False None JNull None False [(''order'', JArr [JStr ''k''])]"
  let ?b2 = "BaseBuilder [(''k'', yesOption)] False None JNull None False
            [(''order'', JArr [JStr ''k'', JStr ''k''])]"
  have w: "wellFormed (initialState :: exampleType builder)" by (rule wellFormed_initialState)
  have s1: "setField initialState ''k'' labelField = Inr ?b1"
    by (simp add: initialState_def method_defs)
  have s2: "setField ?b1 ''k'' yesOption = Inr ?b2"
    by (simp add: method_defs)
  from setField_repeated_key [OF w s1 s2] w s1 s2 show ?thesis
    by (simp add: initialState_def listIn_def)
qed

end
